theory Spec2Isabelle
  imports Complex_Main
begin

section \<open>Collaborators of robot.cpp\<close>

text \<open>
  \<^verbatim>\<open>robot.cpp\<close> is the whole of the mechanism model that is verified here. It uses four
  collaborators that live in other packages: the XML document (TinyXML), the kinematic
  description (\<^verbatim>\<open>urdf::Model\<close>), the plugin loader that creates transmissions
  (\<^verbatim>\<open>pluginlib::ClassLoader\<close>) and the hardware interface that owns the actuators.
  Their data is modelled by the fields \<^verbatim>\<open>robot.cpp\<close> reads; their behaviour is a
  parameter (the record \<open>Collaborators\<close> below).

  Sizes and loop counters (\<^verbatim>\<open>unsigned int\<close> in the source, compared with
  \<^verbatim>\<open>size()\<close>) are natural numbers and the result of \<^verbatim>\<open>findIndexByName\<close> is an
  integer: a vector is taken to have fewer than \<open>2 ^ 31\<close> entries, so that no counter of
  the source wraps. Member names lose their trailing underscore (\<^verbatim>\<open>hw_\<close> is \<open>hw\<close>),
  which an identifier of the logic cannot end with.
\<close>

subsection \<open>The description document\<close>

text \<open>
  A \<^verbatim>\<open>TiXmlElement\<close>: its tag (\<^verbatim>\<open>Value()\<close>), its attributes in document order and its
  child elements in document order.
\<close>

datatype TiXmlElement =
  TiXmlElement (Value: string) (attributes: "(string \<times> string) list") (children: "TiXmlElement list")

text \<open>\<^verbatim>\<open>xit->Attribute("type")\<close>: the value of the attribute, or \<^verbatim>\<open>NULL\<close>.\<close>

definition Attribute :: "TiXmlElement \<Rightarrow> string \<Rightarrow> string option" where
  "Attribute e n = map_of (attributes e) n"

text \<open>
  The elements visited by
  \<^verbatim>\<open>for (xit = root->FirstChildElement(tag); xit; xit = xit->NextSiblingElement(tag))\<close>:
  the children of \<open>rt\<close> with that tag, in document order.
\<close>

definition ChildElements :: "TiXmlElement \<Rightarrow> string \<Rightarrow> TiXmlElement list" where
  "ChildElements rt tag = filter (\<lambda>c. Value c = tag) (children rt)"

subsection \<open>Kinematic description, hardware, transmissions\<close>

text \<open>
  Modelled from the spec: \<^verbatim>\<open>urdf::Joint\<close> is the static kinematic descriptor of a joint;
  of its fields only the name is kept. \<^verbatim>\<open>urdf::Model::getJoint(name)\<close> looks the joint up
  by name and yields a null pointer when there is none.
\<close>

record Joint =
  joint_name :: string

record urdf_Model =
  joints :: "string \<rightharpoonup> Joint"

definition getJoint :: "urdf_Model \<Rightarrow> string \<Rightarrow> Joint option" where
  "getJoint m n = joints m n"

text \<open>
  Modelled from the spec: an actuator holds raw measured state with a halted flag; the
  members that \<^verbatim>\<open>robot.cpp\<close> never reads are left out. An \<^verbatim>\<open>Actuator*\<close> is an address
  in the storage of the hardware interface; the storage itself is \<open>actuator_memory\<close>.
\<close>

record ActuatorState =
  halted :: bool

record Actuator =
  state :: ActuatorState

type_synonym Actuator_ptr = nat

type_synonym actuator_memory = "Actuator_ptr \<Rightarrow> Actuator"

text \<open>
  Modelled from the spec: \<^verbatim>\<open>HardwareInterface::getActuator(name)\<close> yields the actuator
  registered under that name or not-found (\<^verbatim>\<open>NULL\<close>).
\<close>

record HardwareInterface =
  actuators :: "string \<rightharpoonup> Actuator_ptr"

definition HardwareInterface_getActuator :: "HardwareInterface \<Rightarrow> string \<Rightarrow> Actuator_ptr option" where
  "HardwareInterface_getActuator h n = actuators h n"

text \<open>
  The members of \<^verbatim>\<open>Transmission\<close> that \<^verbatim>\<open>robot.cpp\<close> reads. The four propagation
  operations are virtual and belong to the concrete transmission types.
\<close>

record Transmission =
  name :: string
  actuator_names :: "string list"
  joint_names :: "string list"

subsection \<open>Robot\<close>

text \<open>
  \<^verbatim>\<open>hw_\<close> is a pointer that may be null. \<^verbatim>\<open>transmissions_\<close> is a vector of owned
  pointers to transmissions, which nothing changes once they are in the vector.
\<close>

record Robot =
  hw :: "HardwareInterface option"
  robot_model :: urdf_Model
  transmissions :: "Transmission list"

text \<open>\<^verbatim>\<open>Robot::Robot(HardwareInterface *hw)\<close>: the other members are default-constructed.\<close>

definition Robot_ctor :: "HardwareInterface option \<Rightarrow> Robot" where
  "Robot_ctor h = \<lparr>hw = h, robot_model = \<lparr>joints = Map.empty\<rparr>, transmissions = []\<rparr>"

subsection \<open>The behaviour of the collaborators\<close>

text \<open>
  Modelled from the spec: the plugin loader takes a type string and produces a freshly
  constructed transmission instance, or fails with a type-not-found or
  instantiation-failed condition. \<^verbatim>\<open>transmission_loader.createClassInstance(type)\<close> is
  therefore a value of \<open>loader_exception + 'i\<close>: the exception it throws (the three
  \<^verbatim>\<open>catch\<close> blocks of \<^verbatim>\<open>Robot::initXml\<close> tell them apart) or the instance it returns.
\<close>

datatype loader_exception =
    LibraryLoadException string
  | CreateClassException string
  | OtherException

text \<open>
  What the \<^verbatim>\<open>try\<close> statement of \<^verbatim>\<open>Robot::initXml\<close> ends with: an exception caught, or the
  pointer \<^verbatim>\<open>t\<close>, which is null when the element has no \<^verbatim>\<open>type\<close> attribute.
\<close>

datatype 'i loader_result =
    Throws loader_exception
  | Returns "'i option"

text \<open>
  \<^item> \<open>urdf_initXml m rt\<close> is \<^verbatim>\<open>robot_model_.initXml(root)\<close>: the result and the model it
    leaves behind;
  \<^item> \<open>createClassInstance ty\<close> is the plugin loader;
  \<^item> \<open>Transmission_initXml inst xit robot\<close> is the virtual \<^verbatim>\<open>t->initXml(xit, this)\<close> on a
    fresh instance: \<open>None\<close> when it returns false, the configured transmission otherwise.
    It reads the robot built so far and is taken to leave it as it is.
\<close>

record 'i Collaborators =
  urdf_initXml :: "urdf_Model \<Rightarrow> TiXmlElement \<Rightarrow> bool \<times> urdf_Model"
  createClassInstance :: "string \<Rightarrow> loader_exception + 'i"
  Transmission_initXml :: "'i \<Rightarrow> TiXmlElement \<Rightarrow> Robot \<Rightarrow> Transmission option"

text \<open>The messages of \<^verbatim>\<open>ROS_ERROR\<close> and \<^verbatim>\<open>ROS_WARN\<close>, one constructor per format string,
  with the arguments of the format.\<close>

datatype log_msg =
    Error_InvalidHardwareInterface
  | Error_FailedToParseURDF
  | Error_LibraryLoadException string
  | Error_CreateClassException string
  | Error_What string
  | Error_CouldNotConstruct string
  | Error_UnknownTransmissionType "string option"
  | Error_FailedToInitializeTransmission
  | Warn_NoTransmissions
  | Warn_NoJoints

section \<open>Robot::initXml\<close>

text \<open>\<^verbatim>\<open>t = type ? transmission_loader.createClassInstance(type) : NULL\<close>\<close>

definition create_instance :: "'i Collaborators \<Rightarrow> string option \<Rightarrow> 'i loader_result" where
  "create_instance env type =
     (case type of
        None \<Rightarrow> Returns None
      | Some ty \<Rightarrow>
          (case createClassInstance env ty of
             Inl ex \<Rightarrow> Throws ex
           | Inr inst \<Rightarrow> Returns (Some inst)))"

text \<open>The \<^verbatim>\<open>if (!t) ... else if (!t->initXml(xit, this)) ... else\<close> chain that ends the
  loop body.\<close>

definition add_transmission ::
  "'i Collaborators \<Rightarrow> TiXmlElement \<Rightarrow> string option \<Rightarrow> 'i option \<Rightarrow> Robot \<times> log_msg list
     \<Rightarrow> Robot \<times> log_msg list" where
  "add_transmission env xit type t s =
     (case s of (r, lg) \<Rightarrow>
       (case t of
          None \<Rightarrow> (r, lg @ [Error_UnknownTransmissionType type])
        | Some inst \<Rightarrow>
            (case Transmission_initXml env inst xit r of
               None \<Rightarrow> (r, lg @ [Error_FailedToInitializeTransmission])
             | Some tr \<Rightarrow> (r\<lparr>transmissions := transmissions r @ [tr]\<rparr>, lg))))"

text \<open>The loop over the transmission elements. The result is the value returned, the
  robot and the log.\<close>

fun initXml_loop ::
  "'i Collaborators \<Rightarrow> Robot \<times> log_msg list \<Rightarrow> TiXmlElement list \<Rightarrow> bool \<times> Robot \<times> log_msg list" where
  "initXml_loop env (r, lg) [] = (True, r, lg)"
| "initXml_loop env (r, lg) (xit # rest) =
     (let type = Attribute xit ''type'' in
      case create_instance env type of
        Throws (LibraryLoadException what) \<Rightarrow>
          (False, r, lg @ [Error_LibraryLoadException (the type), Error_What what])
      | Throws (CreateClassException what) \<Rightarrow>
          (False, r, lg @ [Error_CreateClassException (the type), Error_What what])
      | Throws OtherException \<Rightarrow>
          (False, r, lg @ [Error_CouldNotConstruct (the type)])
      | Returns t \<Rightarrow> initXml_loop env (add_transmission env xit type t (r, lg)) rest)"

definition initXml :: "'i Collaborators \<Rightarrow> Robot \<Rightarrow> TiXmlElement \<Rightarrow> bool \<times> Robot \<times> log_msg list" where
  "initXml env r rt =
     (case hw r of
        None \<Rightarrow> (False, r, [Error_InvalidHardwareInterface])
      | Some h \<Rightarrow>
          (case urdf_initXml env (robot_model r) rt of
             (False, m) \<Rightarrow> (False, r\<lparr>robot_model := m\<rparr>, [Error_FailedToParseURDF])
           | (True, m) \<Rightarrow>
               initXml_loop env (r\<lparr>robot_model := m\<rparr>, []) (ChildElements rt ''transmission'')))"

section \<open>Lookup by name\<close>

text \<open>
  \<^verbatim>\<open>findIndexByName\<close>, the loop from index \<open>i\<close> on. The template parameter is
  instantiated with \<^verbatim>\<open>Transmission\<close>, its only use.
\<close>

function findIndexByName_loop :: "Transmission list \<Rightarrow> string \<Rightarrow> nat \<Rightarrow> int" where
  "findIndexByName_loop v nm i =
     (if i < length v then
        (if name (v ! i) = nm then int i else findIndexByName_loop v nm (Suc i))
      else - 1)"
  by pat_completeness auto
termination
  by (relation "measure (\<lambda>(v, nm, i). length v - i)") auto

definition findIndexByName :: "Transmission list \<Rightarrow> string \<Rightarrow> int" where
  "findIndexByName v nm = findIndexByName_loop v nm 0"

definition getTransmissionIndex :: "Robot \<Rightarrow> string \<Rightarrow> int" where
  "getTransmissionIndex r nm = findIndexByName (transmissions r) nm"

text \<open>\<^verbatim>\<open>return i >= 0 ? transmissions_[i] : NULL\<close>\<close>

definition getTransmission :: "Robot \<Rightarrow> string \<Rightarrow> Transmission option" where
  "getTransmission r nm =
     (let i = getTransmissionIndex r nm in
      if i \<ge> 0 then Some (transmissions r ! nat i) else None)"

section \<open>RobotState\<close>

text \<open>
  Modelled from the spec: a joint state holds the reference to its joint descriptor (a
  shared pointer, null when the description has no such joint), the measured position,
  velocity and effort, and the commanded effort.
\<close>

record JointState =
  joint :: "Joint option"
  position :: real
  velocity :: real
  measured_effort :: real
  commanded_effort :: real

text \<open>
  A \<^verbatim>\<open>JointState*\<close> held by a \<^verbatim>\<open>RobotState\<close> is always \<^verbatim>\<open>&(joint_states_[k])\<close>; it is
  modelled by the index \<open>k\<close>.
\<close>

type_synonym JointState_ptr = nat

record RobotState =
  model :: Robot
  joint_states :: "JointState list"
  transmissions_in :: "Actuator_ptr list list"
  transmissions_out :: "JointState_ptr list list"
  joint_states_map :: "string \<rightharpoonup> JointState_ptr"

text \<open>
  How the constructor can fail to return: a failed \<^verbatim>\<open>assert\<close> (assertions are taken
  to be compiled in), a call through the null hardware pointer, or an index beyond the
  end of a vector.
\<close>

datatype failure =
    AssertionFailed string
  | NullPointer
  | OutOfRange

text \<open>\<^verbatim>\<open>Robot::getActuator\<close> is \<^verbatim>\<open>hw_->getActuator(name)\<close>.\<close>

definition getActuator :: "Robot \<Rightarrow> string \<Rightarrow> failure + Actuator_ptr option" where
  "getActuator r nm =
     (case hw r of
        None \<Rightarrow> Inl NullPointer
      | Some h \<Rightarrow> Inr (HardwareInterface_getActuator h nm))"

text \<open>
  The first pair of loops of the constructor. \<open>ctor_actuators i t j\<close> is the inner loop
  from \<open>j\<close> on, for transmission \<open>t\<close> at index \<open>i\<close>; \<open>ctor_bind_actuators i\<close> is the outer
  loop from \<open>i\<close> on and carries \<^verbatim>\<open>js_size\<close>.
\<close>

function ctor_actuators :: "nat \<Rightarrow> Transmission \<Rightarrow> nat \<Rightarrow> RobotState \<Rightarrow> failure + RobotState" where
  "ctor_actuators i t j rs =
     (if j < length (actuator_names t) then
        (case getActuator (model rs) (actuator_names t ! j) of
           Inl e \<Rightarrow> Inl e
         | Inr None \<Rightarrow> Inl (AssertionFailed ''act != NULL'')
         | Inr (Some act) \<Rightarrow>
             (if i < length (transmissions_in rs) then
                ctor_actuators i t (Suc j)
                  (rs\<lparr>transmissions_in :=
                        (transmissions_in rs)[i := transmissions_in rs ! i @ [act]]\<rparr>)
              else Inl OutOfRange))
      else Inr rs)"
  by pat_completeness auto
termination
  by (relation "measure (\<lambda>(i, t, j, rs). length (actuator_names t) - j)") auto

function ctor_bind_actuators :: "nat \<Rightarrow> RobotState \<times> nat \<Rightarrow> failure + RobotState \<times> nat" where
  "ctor_bind_actuators i (rs, js_size) =
     (if i < length (transmissions (model rs)) then
        (let t = transmissions (model rs) ! i in
         case ctor_actuators i t 0 rs of
           Inl e \<Rightarrow> Inl e
         | Inr rs' \<Rightarrow> ctor_bind_actuators (Suc i) (rs', js_size + length (joint_names t)))
      else Inr (rs, js_size))"
  by pat_completeness auto
termination
proof (relation "measure (\<lambda>(i, rs, js_size). length (transmissions (model rs)) - i)")
  show "wf (measure (\<lambda>(i, rs, js_size). length (transmissions (model rs)) - i))"
    by simp
next
  fix i rs js_size t rs'
  assume lt: "i < length (transmissions (model rs))"
    and run: "ctor_actuators i t 0 rs = Inr rs'"
  have same_model: "ctor_actuators i t j rs = Inr rs' \<Longrightarrow> model rs' = model rs" for j
  proof (induction i t j rs rule: ctor_actuators.induct)
    case (1 i t j rs)
    show ?case
    proof (cases "j < length (actuator_names t)")
      case False
      with "1.prems" show ?thesis by simp
    next
      case True
      with "1.prems" obtain act
        where a: "getActuator (model rs) (actuator_names t ! j) = Inr (Some act)"
          and b: "i < length (transmissions_in rs)"
          and c: "ctor_actuators i t (Suc j)
                    (rs\<lparr>transmissions_in :=
                          (transmissions_in rs)[i := transmissions_in rs ! i @ [act]]\<rparr>) = Inr rs'"
        by (simp split: sum.splits option.splits if_splits)
      from "1.IH" [OF True a refl b c] show ?thesis by simp
    qed
  qed
  from run have "model rs' = model rs" by (rule same_model)
  with lt show "((Suc i, rs', js_size + length (joint_names t)), i, rs, js_size)
       \<in> measure (\<lambda>(i, rs, js_size). length (transmissions (model rs)) - i)"
    by simp
qed

text \<open>
  The second pair of loops. \<open>ctor_joints i t j\<close> is the inner loop from \<open>j\<close> on and
  \<open>ctor_wire_joints i\<close> the outer loop from \<open>i\<close> on; both carry \<^verbatim>\<open>js_id\<close>.
\<close>

function ctor_joints :: "nat \<Rightarrow> Transmission \<Rightarrow> nat \<Rightarrow> RobotState \<times> nat \<Rightarrow> failure + RobotState \<times> nat" where
  "ctor_joints i t j (rs, js_id) =
     (if j < length (joint_names t) then
        (if js_id < length (joint_states rs) \<and> i < length (transmissions_out rs) then
           ctor_joints i t (Suc j)
             (rs\<lparr>joint_states :=
                   (joint_states rs)[js_id := (joint_states rs ! js_id)
                      \<lparr>joint := getJoint (robot_model (model rs)) (joint_names t ! j)\<rparr>],
                 joint_states_map := (joint_states_map rs)(joint_names t ! j \<mapsto> js_id),
                 transmissions_out :=
                   (transmissions_out rs)[i := transmissions_out rs ! i @ [js_id]]\<rparr>,
              Suc js_id)
         else Inl OutOfRange)
      else Inr (rs, js_id))"
  by pat_completeness auto
termination
  by (relation "measure (\<lambda>(i, t, j, s). length (joint_names t) - j)") auto

function ctor_wire_joints :: "nat \<Rightarrow> RobotState \<times> nat \<Rightarrow> failure + RobotState \<times> nat" where
  "ctor_wire_joints i (rs, js_id) =
     (if i < length (transmissions (model rs)) then
        (case ctor_joints i (transmissions (model rs) ! i) 0 (rs, js_id) of
           Inl e \<Rightarrow> Inl e
         | Inr s \<Rightarrow> ctor_wire_joints (Suc i) s)
      else Inr (rs, js_id))"
  by pat_completeness auto
termination
proof (relation "measure (\<lambda>(i, rs, js_id). length (transmissions (model rs)) - i)")
  show "wf (measure (\<lambda>(i, rs, js_id). length (transmissions (model rs)) - i))"
    by simp
next
  fix i rs js_id s
  assume lt: "i < length (transmissions (model rs))"
    and run: "ctor_joints i (transmissions (model rs) ! i) 0 (rs, js_id) = Inr s"
  have same_model: "ctor_joints i t j s = Inr s' \<Longrightarrow> model (fst s') = model (fst s)" for t j s s'
  proof (induction i t j s rule: ctor_joints.induct)
    case (1 i t j rs js_id)
    show ?case
    proof (cases "j < length (joint_names t)")
      case False
      with "1.prems" show ?thesis by auto
    next
      case True
      with "1.prems" have b: "js_id < length (joint_states rs) \<and> i < length (transmissions_out rs)"
        by (simp split: if_splits)
      with True "1.prems" have c: "ctor_joints i t (Suc j)
             (rs\<lparr>joint_states :=
                   (joint_states rs)[js_id := (joint_states rs ! js_id)
                      \<lparr>joint := getJoint (robot_model (model rs)) (joint_names t ! j)\<rparr>],
                 joint_states_map := (joint_states_map rs)(joint_names t ! j \<mapsto> js_id),
                 transmissions_out :=
                   (transmissions_out rs)[i := transmissions_out rs ! i @ [js_id]]\<rparr>,
              Suc js_id) = Inr s'"
        by simp
      from "1.IH" [OF True b c] show ?thesis by simp
    qed
  qed
  from same_model [OF run] have "model (fst s) = model rs" by simp
  with lt show "((Suc i, s), i, rs, js_id)
       \<in> measure (\<lambda>(i, rs, js_id). length (transmissions (model rs)) - i)"
    by (cases s) simp
qed

text \<open>
  \<^verbatim>\<open>RobotState::RobotState(Robot *model)\<close>. \<open>js0\<close> is the default-constructed joint state
  that \<^verbatim>\<open>joint_states_.resize(js_size)\<close> fills the vector with. The result is the
  constructed object and the warnings logged.
\<close>

definition RobotState_ctor :: "JointState \<Rightarrow> Robot option \<Rightarrow> failure + RobotState \<times> log_msg list" where
  "RobotState_ctor js0 mp =
     (case mp of
        None \<Rightarrow> Inl (AssertionFailed ''model_'')
      | Some m \<Rightarrow>
          (case ctor_bind_actuators 0
                  (\<lparr>model = m, joint_states = [],
                    transmissions_in = replicate (length (transmissions m)) [],
                    transmissions_out = replicate (length (transmissions m)) [],
                    joint_states_map = Map.empty\<rparr>, 0) of
             Inl e \<Rightarrow> Inl e
           | Inr (rs, js_size) \<Rightarrow>
               (case ctor_wire_joints 0 (rs\<lparr>joint_states := replicate js_size js0\<rparr>, 0) of
                  Inl e \<Rightarrow> Inl e
                | Inr (rs', js_id) \<Rightarrow>
                    Inr (rs',
                         (if transmissions m = [] then [Warn_NoTransmissions] else []) @
                         (if js_size = 0 then [Warn_NoJoints] else [])))))"

text \<open>\<^verbatim>\<open>RobotState::getJointState\<close>, the same in its const and non-const version.\<close>

definition getJointState :: "RobotState \<Rightarrow> string \<Rightarrow> JointState_ptr option" where
  "getJointState rs nm =
     (case joint_states_map rs nm of
        None \<Rightarrow> None
      | Some p \<Rightarrow> Some p)"

text \<open>
  The member functions below run on a constructed object. What they can reach is the
  object itself and, through the pointers of \<^verbatim>\<open>transmissions_in_\<close>, the actuators in the
  storage of the hardware interface.
\<close>

type_synonym program_state = "actuator_memory \<times> RobotState"

text \<open>\<^verbatim>\<open>RobotState::isHalted\<close>: the inner loop from \<open>a\<close> on tells whether it returned
  true; the outer loop from \<open>t\<close> on is the result.\<close>

function isHalted_actuators :: "actuator_memory \<Rightarrow> Actuator_ptr list \<Rightarrow> nat \<Rightarrow> bool" where
  "isHalted_actuators mem row a =
     (if a < length row then
        (if halted (state (mem (row ! a))) then True else isHalted_actuators mem row (Suc a))
      else False)"
  by pat_completeness auto
termination
  by (relation "measure (\<lambda>(mem, row, a). length row - a)") auto

function isHalted_loop :: "actuator_memory \<Rightarrow> Actuator_ptr list list \<Rightarrow> nat \<Rightarrow> bool" where
  "isHalted_loop mem tin t =
     (if t < length tin then
        (if isHalted_actuators mem (tin ! t) 0 then True else isHalted_loop mem tin (Suc t))
      else False)"
  by pat_completeness auto
termination
  by (relation "measure (\<lambda>(mem, tin, t). length tin - t)") auto

definition isHalted :: "program_state \<Rightarrow> bool" where
  "isHalted s = (case s of (mem, rs) \<Rightarrow> isHalted_loop mem (transmissions_in rs) 0)"

text \<open>\<^verbatim>\<open>RobotState::zeroCommands\<close>, the loop from \<open>i\<close> on.\<close>

function zeroCommands_loop :: "RobotState \<Rightarrow> nat \<Rightarrow> RobotState" where
  "zeroCommands_loop rs i =
     (if i < length (joint_states rs) then
        zeroCommands_loop
          (rs\<lparr>joint_states := (joint_states rs)[i := (joint_states rs ! i)\<lparr>commanded_effort := 0\<rparr>]\<rparr>)
          (Suc i)
      else rs)"
  by pat_completeness auto
termination
  by (relation "measure (\<lambda>(rs, i). length (joint_states rs) - i)") auto

definition zeroCommands :: "program_state \<Rightarrow> program_state" where
  "zeroCommands s = (case s of (mem, rs) \<Rightarrow> (mem, zeroCommands_loop rs 0))"

section \<open>Vocabulary of the properties\<close>

text \<open>The plugin loader throws on the type of this element.\<close>

definition loader_throws :: "'i Collaborators \<Rightarrow> TiXmlElement \<Rightarrow> bool" where
  "loader_throws env xit =
     (case create_instance env (Attribute xit ''type'') of Throws ex \<Rightarrow> True | Returns t \<Rightarrow> False)"

text \<open>What \<open>initXml\<close> logs in the handler of each exception, for the type \<open>ty\<close>.\<close>

fun abort_messages :: "string \<Rightarrow> loader_exception \<Rightarrow> log_msg list" where
  "abort_messages ty (LibraryLoadException what) = [Error_LibraryLoadException ty, Error_What what]"
| "abort_messages ty (CreateClassException what) = [Error_CreateClassException ty, Error_What what]"
| "abort_messages ty OtherException = [Error_CouldNotConstruct ty]"

text \<open>The hardware interface of the robot has an actuator of this name, at this address.\<close>

definition resolves :: "Robot \<Rightarrow> string \<Rightarrow> Actuator_ptr \<Rightarrow> bool" where
  "resolves m nm act = (getActuator m nm = Inr (Some act))"

text \<open>The joint names that the transmissions of a robot declare, in transmission-then-joint
  order, duplicates kept.\<close>

definition declared_joint_names :: "Robot \<Rightarrow> string list" where
  "declared_joint_names m = concat (map joint_names (transmissions m))"

text \<open>The position in that list of the \<open>j\<close>-th joint name of transmission \<open>i\<close>.\<close>

definition slot_of :: "Robot \<Rightarrow> nat \<Rightarrow> nat \<Rightarrow> nat" where
  "slot_of m i j = sum_list (map (\<lambda>t. length (joint_names t)) (take i (transmissions m))) + j"

text \<open>A default-constructed joint state bound to the joint of this name.\<close>

definition wired :: "JointState \<Rightarrow> urdf_Model \<Rightarrow> string \<Rightarrow> JointState" where
  "wired js0 um nm = js0\<lparr>joint := getJoint um nm\<rparr>"

text \<open>Consecutive runs of indices from \<open>k\<close> on, one run as long as each list.\<close>

fun out_rows :: "nat \<Rightarrow> string list list \<Rightarrow> JointState_ptr list list" where
  "out_rows k [] = []"
| "out_rows k (ns # nss) = [k..<k + length ns] # out_rows (k + length ns) nss"

section \<open>A small description\<close>

text \<open>
  A hardware interface with two actuators and collaborators that stand for a plugin
  library with one transmission type, \<open>simple\<close>: on any other type the loader throws, a
  \<^verbatim>\<open>LibraryLoadException\<close> on \<open>broken_library\<close> and a \<^verbatim>\<open>CreateClassException\<close> on the
  rest. A \<open>simple\<close>
  transmission reads its name, its actuator and its joint from attributes of its element
  and fails without any of them.
\<close>

definition example_hw :: HardwareInterface where
  "example_hw = \<lparr>actuators = [''act1'' \<mapsto> 0, ''act2'' \<mapsto> 1]\<rparr>"

definition example_loader :: "string \<Rightarrow> loader_exception + string" where
  "example_loader ty =
     (if ty = ''simple'' then Inr ty
      else if ty = ''broken_library'' then Inl (LibraryLoadException ''cannot load'')
      else Inl (CreateClassException ''no such class''))"

definition example_Transmission_initXml :: "string \<Rightarrow> TiXmlElement \<Rightarrow> Robot \<Rightarrow> Transmission option" where
  "example_Transmission_initXml inst xit r =
     (case Attribute xit ''name'' of
        None \<Rightarrow> None
      | Some n \<Rightarrow>
          (case Attribute xit ''actuator'' of
             None \<Rightarrow> None
           | Some a \<Rightarrow>
               (case Attribute xit ''joint'' of
                  None \<Rightarrow> None
                | Some j \<Rightarrow> Some \<lparr>name = n, actuator_names = [a], joint_names = [j]\<rparr>)))"

definition example_env :: "string Collaborators" where
  "example_env =
     \<lparr>urdf_initXml = (\<lambda>m rt. (True, m)),
      createClassInstance = example_loader,
      Transmission_initXml = example_Transmission_initXml\<rparr>"

definition simple_element :: "string \<Rightarrow> string \<Rightarrow> string \<Rightarrow> TiXmlElement" where
  "simple_element n a j =
     TiXmlElement ''transmission''
       [(''type'', ''simple''), (''name'', n), (''actuator'', a), (''joint'', j)] []"

definition element_of_type :: "string \<Rightarrow> TiXmlElement" where
  "element_of_type ty = TiXmlElement ''transmission'' [(''type'', ty), (''name'', ''t'')] []"

definition robot_element :: "TiXmlElement list \<Rightarrow> TiXmlElement" where
  "robot_element cs = TiXmlElement ''robot'' [(''name'', ''pr2'')] cs"

text \<open>
  A robot on that hardware with three transmissions: the first and the third have the
  same name, the first and the second declare the same joint \<open>j1\<close>, and the third declares
  nothing. The joint states start from \<open>example_js0\<close>; \<open>example_state\<close> is what the
  constructor of \<open>RobotState\<close> builds; in \<open>example_memory\<close> the actuator at address 1 is
  halted.
\<close>

definition example_robot :: Robot where
  "example_robot =
     \<lparr>hw = Some example_hw,
      robot_model = \<lparr>joints = [''j1'' \<mapsto> \<lparr>joint_name = ''j1''\<rparr>]\<rparr>,
      transmissions =
        [\<lparr>name = ''a'', actuator_names = [''act1'', ''act2''], joint_names = [''j1'', ''j2'']\<rparr>,
         \<lparr>name = ''b'', actuator_names = [''act2''], joint_names = [''j1'']\<rparr>,
         \<lparr>name = ''a'', actuator_names = [], joint_names = []\<rparr>]\<rparr>"

definition example_js0 :: JointState where
  "example_js0 =
     \<lparr>joint = None, position = 0, velocity = 0, measured_effort = 0, commanded_effort = 7\<rparr>"

definition example_state :: RobotState where
  "example_state =
     \<lparr>model = example_robot,
      joint_states =
        [example_js0\<lparr>joint := Some \<lparr>joint_name = ''j1''\<rparr>\<rparr>,
         example_js0,
         example_js0\<lparr>joint := Some \<lparr>joint_name = ''j1''\<rparr>\<rparr>],
      transmissions_in = [[0, 1], [1], []],
      transmissions_out = [[0, 1], [2], []],
      joint_states_map = [''j1'' \<mapsto> 0, ''j2'' \<mapsto> 1, ''j1'' \<mapsto> 2]\<rparr>"

definition example_memory :: actuator_memory where
  "example_memory p = \<lparr>state = \<lparr>halted = (p = 1)\<rparr>\<rparr>"

section \<open>Properties of Robot::initXml\<close>

text \<open>The equations of the loops are unfolded one step at a time, where a proof asks
  for it.\<close>

declare findIndexByName_loop.simps [simp del]
declare ctor_actuators.simps [simp del]
declare ctor_bind_actuators.simps [simp del]
declare ctor_joints.simps [simp del]
declare ctor_wire_joints.simps [simp del]
declare isHalted_actuators.simps [simp del]
declare isHalted_loop.simps [simp del]
declare zeroCommands_loop.simps [simp del]

lemmas example_defs =
  example_env_def example_loader_def example_Transmission_initXml_def example_hw_def
  simple_element_def element_of_type_def robot_element_def Robot_ctor_def
  ChildElements_def Attribute_def create_instance_def add_transmission_def

lemma initXml_loop_append:
  "initXml_loop env s (xs @ ys) =
     (case initXml_loop env s xs of
        (True, r, lg) \<Rightarrow> initXml_loop env (r, lg) ys
      | (False, r, lg) \<Rightarrow> (False, r, lg))"
proof (induction xs arbitrary: s)
  case Nil
  show ?case by (cases s) simp
next
  case (Cons x xs)
  obtain r lg where s: "s = (r, lg)" by (cases s)
  show ?case
    unfolding s
    by (simp add: Cons.IH Let_def split: loader_result.split loader_exception.split)
qed

lemma initXml_loop_no_throw:
  "\<forall>x\<in>set xs. \<not> loader_throws env x \<Longrightarrow> fst (initXml_loop env s xs)"
proof (induction xs arbitrary: s)
  case Nil
  show ?case by (cases s) simp
next
  case (Cons x xs)
  obtain r lg where s: "s = (r, lg)" by (cases s)
  from Cons.prems obtain t where t: "create_instance env (Attribute x ''type'') = Returns t"
    by (auto simp: loader_throws_def split: loader_result.splits)
  from Cons.prems have "\<forall>x\<in>set xs. \<not> loader_throws env x" by simp
  from Cons.IH [OF this] show ?case
    unfolding s by (simp add: t)
qed

lemma initXml_loop_throw:
  assumes "Attribute xit ''type'' = Some ty" and "createClassInstance env ty = Inl ex"
  shows "initXml_loop env (r, lg) (xit # rest) = (False, r, lg @ abort_messages ty ex)"
  using assms by (cases ex) (simp_all add: create_instance_def Let_def)

text \<open>
  C9. When the hardware handle of the robot is absent, \<open>initXml\<close> returns false with
  the one error about the hardware interface, whatever the document and whatever the
  collaborators would do: the description is not parsed and the robot, its transmission
  list included, is left as it was.
\<close>

theorem initXml_no_hardware:
  "hw r = None \<Longrightarrow> initXml env r rt = (False, r, [Error_InvalidHardwareInterface])"
  by (simp add: initXml_def)

theorem initXml_no_hardware_witness:
  "hw (Robot_ctor None) = None \<and>
   initXml example_env (Robot_ctor None) (robot_element [simple_element ''t1'' ''act1'' ''j1'']) =
     (False, Robot_ctor None, [Error_InvalidHardwareInterface])"
  using initXml_no_hardware [of "Robot_ctor None" example_env
      "robot_element [simple_element ''t1'' ''act1'' ''j1'']"]
  by (simp add: Robot_ctor_def)

lemma loader_throws_iff:
  "loader_throws env xit \<longleftrightarrow>
     (\<exists>ty ex. Attribute xit ''type'' = Some ty \<and> createClassInstance env ty = Inl ex)"
  by (auto simp: loader_throws_def create_instance_def split: option.splits sum.splits)

lemma initXml_aborts_at_first_throw:
  assumes h: "hw r \<noteq> None"
    and u: "fst (urdf_initXml env (robot_model r) rt)"
    and doc: "ChildElements rt ''transmission'' = pre @ xit # post"
    and quiet: "\<forall>x\<in>set pre. \<not> loader_throws env x"
    and ty: "Attribute xit ''type'' = Some ty"
    and ex: "createClassInstance env ty = Inl ex"
  shows "\<exists>r1 lg. initXml env r rt = (False, r1, lg @ abort_messages ty ex)"
proof -
  from u obtain m where m: "urdf_initXml env (robot_model r) rt = (True, m)"
    by (cases "urdf_initXml env (robot_model r) rt") simp
  from initXml_loop_no_throw [OF quiet, of "(r\<lparr>robot_model := m\<rparr>, [])"]
  obtain r1 lg1 where p: "initXml_loop env (r\<lparr>robot_model := m\<rparr>, []) pre = (True, r1, lg1)"
    by (cases "initXml_loop env (r\<lparr>robot_model := m\<rparr>, []) pre") simp
  from h have "initXml env r rt = (False, r1, lg1 @ abort_messages ty ex)"
    by (auto simp: initXml_def m doc initXml_loop_append p initXml_loop_throw [OF ty ex]
        simp del: initXml_loop.simps)
  then show ?thesis by blast
qed

text \<open>
  C1. When the description has a transmission element with a declared type string that
  the plugin loader does not resolve to an instance, that is, on which it throws,
  \<open>initXml\<close> returns false. With a hardware handle and a kinematic description that
  parses, the log ends with the messages of the exception handler, which carry the type
  string: that of this element when the loader throws on no element before it, and in
  any case that of an element of the description on which the loader throws.
\<close>

theorem initXml_loader_throws:
  assumes doc: "ChildElements rt ''transmission'' = pre @ xit # post"
    and ty: "Attribute xit ''type'' = Some ty"
    and ex: "createClassInstance env ty = Inl ex"
  shows "\<not> fst (initXml env r rt) \<and>
         (hw r \<noteq> None \<and> fst (urdf_initXml env (robot_model r) rt) \<and>
          (\<forall>x\<in>set pre. \<not> loader_throws env x) \<longrightarrow>
            (\<exists>lg. snd (snd (initXml env r rt)) = lg @ abort_messages ty ex)) \<and>
         (hw r \<noteq> None \<and> fst (urdf_initXml env (robot_model r) rt) \<longrightarrow>
            (\<exists>x ty' ex' lg.
               x \<in> set (ChildElements rt ''transmission'') \<and>
               Attribute x ''type'' = Some ty' \<and>
               createClassInstance env ty' = Inl ex' \<and>
               snd (snd (initXml env r rt)) = lg @ abort_messages ty' ex'))"
proof -
  have loop: "\<not> fst (initXml_loop env s (pre @ xit # post))" for s
  proof -
    obtain ok r1 lg1 where p: "initXml_loop env s pre = (ok, r1, lg1)"
      by (cases "initXml_loop env s pre")
    show ?thesis
      by (cases ok)
        (simp_all add: initXml_loop_append p initXml_loop_throw [OF ty ex] del: initXml_loop.simps)
  qed
  have abort: "\<not> fst (initXml env r rt)"
    by (auto simp: initXml_def doc loop split: option.split prod.split bool.split)
  have log: "\<exists>lg. snd (snd (initXml env r rt)) = lg @ abort_messages ty ex"
    if h: "hw r \<noteq> None" and u: "fst (urdf_initXml env (robot_model r) rt)"
      and quiet: "\<forall>x\<in>set pre. \<not> loader_throws env x"
  proof -
    from initXml_aborts_at_first_throw [OF h u doc quiet ty ex] obtain r1 lg
      where "initXml env r rt = (False, r1, lg @ abort_messages ty ex)" by blast
    then show ?thesis by simp
  qed
  have some: "\<exists>x ty' ex' lg.
               x \<in> set (ChildElements rt ''transmission'') \<and>
               Attribute x ''type'' = Some ty' \<and>
               createClassInstance env ty' = Inl ex' \<and>
               snd (snd (initXml env r rt)) = lg @ abort_messages ty' ex'"
    if h: "hw r \<noteq> None" and u: "fst (urdf_initXml env (robot_model r) rt)"
  proof -
    from ty ex have "loader_throws env xit" by (auto simp: loader_throws_iff)
    with doc have "\<exists>x\<in>set (ChildElements rt ''transmission''). loader_throws env x" by auto
    from split_list_first_prop [OF this] obtain ys x zs
      where d: "ChildElements rt ''transmission'' = ys @ x # zs"
        and x: "loader_throws env x"
        and q: "\<forall>y\<in>set ys. \<not> loader_throws env y"
      by blast
    from x obtain ty' ex'
      where ty': "Attribute x ''type'' = Some ty'" and ex': "createClassInstance env ty' = Inl ex'"
      by (auto simp: loader_throws_iff)
    from initXml_aborts_at_first_throw [OF h u d q ty' ex'] obtain r1 lg
      where "initXml env r rt = (False, r1, lg @ abort_messages ty' ex')" by blast
    then have "snd (snd (initXml env r rt)) = lg @ abort_messages ty' ex'" by simp
    moreover from d have "x \<in> set (ChildElements rt ''transmission'')" by simp
    ultimately show ?thesis using ty' ex' by blast
  qed
  from abort log some show ?thesis by blast
qed

theorem initXml_loader_throws_witness:
  "ChildElements
     (robot_element [simple_element ''t1'' ''act1'' ''j1'', element_of_type ''broken_library'',
                     simple_element ''t2'' ''act2'' ''j2''])
     ''transmission'' =
     [simple_element ''t1'' ''act1'' ''j1''] @ element_of_type ''broken_library'' #
     [simple_element ''t2'' ''act2'' ''j2''] \<and>
   Attribute (element_of_type ''broken_library'') ''type'' = Some ''broken_library'' \<and>
   createClassInstance example_env ''broken_library'' = Inl (LibraryLoadException ''cannot load'') \<and>
   hw (Robot_ctor (Some example_hw)) \<noteq> None \<and>
   \<not> loader_throws example_env (simple_element ''t1'' ''act1'' ''j1'') \<and>
   \<not> fst (initXml example_env (Robot_ctor (Some example_hw))
            (robot_element [simple_element ''t1'' ''act1'' ''j1'', element_of_type ''broken_library'',
                            simple_element ''t2'' ''act2'' ''j2''])) \<and>
   (\<exists>lg. snd (snd (initXml example_env (Robot_ctor (Some example_hw))
            (robot_element [simple_element ''t1'' ''act1'' ''j1'', element_of_type ''broken_library'',
                            simple_element ''t2'' ''act2'' ''j2'']))) =
         lg @ [Error_LibraryLoadException ''broken_library'', Error_What ''cannot load'']) \<and>
   createClassInstance example_env ''bogus'' = Inl (CreateClassException ''no such class'') \<and>
   \<not> fst (initXml example_env (Robot_ctor (Some example_hw))
            (robot_element [element_of_type ''bogus'']))"
proof -
  let ?doc = "robot_element [simple_element ''t1'' ''act1'' ''j1'', element_of_type ''broken_library'',
                     simple_element ''t2'' ''act2'' ''j2'']"
  have doc: "ChildElements ?doc ''transmission'' =
     [simple_element ''t1'' ''act1'' ''j1''] @ element_of_type ''broken_library'' #
     [simple_element ''t2'' ''act2'' ''j2'']"
    by (simp add: example_defs)
  have ty: "Attribute (element_of_type ''broken_library'') ''type'' = Some ''broken_library''"
    by (simp add: example_defs)
  have ex: "createClassInstance example_env ''broken_library'' = Inl (LibraryLoadException ''cannot load'')"
    by (simp add: example_defs)
  have h: "hw (Robot_ctor (Some example_hw)) \<noteq> None"
    by (simp add: example_defs)
  have u: "fst (urdf_initXml example_env (robot_model (Robot_ctor (Some example_hw))) ?doc)"
    by (simp add: example_defs)
  have q: "\<not> loader_throws example_env (simple_element ''t1'' ''act1'' ''j1'')"
    by (simp add: loader_throws_def example_defs)
  note w = initXml_loader_throws [OF doc ty ex, of "Robot_ctor (Some example_hw)"]
  from w have abort: "\<not> fst (initXml example_env (Robot_ctor (Some example_hw)) ?doc)"
    by (rule conjunct1)
  from w have "hw (Robot_ctor (Some example_hw)) \<noteq> None \<and>
      fst (urdf_initXml example_env (robot_model (Robot_ctor (Some example_hw))) ?doc) \<and>
      (\<forall>x\<in>set [simple_element ''t1'' ''act1'' ''j1'']. \<not> loader_throws example_env x) \<longrightarrow>
      (\<exists>lg. snd (snd (initXml example_env (Robot_ctor (Some example_hw)) ?doc)) =
           lg @ abort_messages ''broken_library'' (LibraryLoadException ''cannot load''))"
    by (rule conjunct2 [THEN conjunct1])
  with h u q abort
  have "\<not> fst (initXml example_env (Robot_ctor (Some example_hw)) ?doc) \<and>
        (\<exists>lg. snd (snd (initXml example_env (Robot_ctor (Some example_hw)) ?doc)) =
           lg @ abort_messages ''broken_library'' (LibraryLoadException ''cannot load''))"
    by simp
  moreover
  have doc1: "ChildElements (robot_element [element_of_type ''bogus'']) ''transmission'' =
                [] @ element_of_type ''bogus'' # []"
    by (simp add: example_defs)
  have ty1: "Attribute (element_of_type ''bogus'') ''type'' = Some ''bogus''"
    by (simp add: example_defs)
  have ex1: "createClassInstance example_env ''bogus'' = Inl (CreateClassException ''no such class'')"
    by (simp add: example_defs)
  from initXml_loader_throws [OF doc1 ty1 ex1, of "Robot_ctor (Some example_hw)"]
  have "\<not> fst (initXml example_env (Robot_ctor (Some example_hw))
                 (robot_element [element_of_type ''bogus'']))"
    by (rule conjunct1)
  ultimately show ?thesis using doc ty ex h q ex1 by simp
qed

text \<open>
  C2. A transmission element whose instance was created and whose own \<open>initXml\<close> fails
  on the robot built so far leaves that robot, its transmission list included, as it is
  and adds one error to the log; the loop goes on with the elements after it, and when
  the loader throws on none of them \<open>initXml\<close> returns true.
\<close>

theorem initXml_discards_failed_transmission:
  assumes h: "hw r = Some h"
    and u: "urdf_initXml env (robot_model r) rt = (True, m)"
    and doc: "ChildElements rt ''transmission'' = pre @ xit # post"
    and p: "initXml_loop env (r\<lparr>robot_model := m\<rparr>, []) pre = (True, r1, lg1)"
    and inst: "create_instance env (Attribute xit ''type'') = Returns (Some inst)"
    and fails: "Transmission_initXml env inst xit r1 = None"
  shows "initXml_loop env (r1, lg1) [xit] =
           (True, r1, lg1 @ [Error_FailedToInitializeTransmission]) \<and>
         initXml env r rt =
           initXml_loop env (r1, lg1 @ [Error_FailedToInitializeTransmission]) post \<and>
         ((\<forall>x\<in>set post. \<not> loader_throws env x) \<longrightarrow> fst (initXml env r rt))"
proof -
  have alone: "initXml_loop env (r1, lg1) [xit] =
                 (True, r1, lg1 @ [Error_FailedToInitializeTransmission])"
    by (simp add: inst add_transmission_def fails Let_def)
  have step: "initXml_loop env (r1, lg1) (xit # post) =
                initXml_loop env (r1, lg1 @ [Error_FailedToInitializeTransmission]) post"
    by (simp add: inst add_transmission_def fails Let_def)
  have eq: "initXml env r rt =
              initXml_loop env (r1, lg1 @ [Error_FailedToInitializeTransmission]) post"
    by (simp add: initXml_def h u doc initXml_loop_append p step del: initXml_loop.simps)
  from alone eq initXml_loop_no_throw show ?thesis by metis
qed

theorem initXml_discards_failed_transmission_witness:
  "initXml example_env (Robot_ctor (Some example_hw))
     (robot_element [simple_element ''t1'' ''act1'' ''j1'', element_of_type ''simple'',
                     simple_element ''t2'' ''act2'' ''j2'']) =
   (True,
    (Robot_ctor (Some example_hw))
      \<lparr>transmissions :=
         [\<lparr>name = ''t1'', actuator_names = [''act1''], joint_names = [''j1'']\<rparr>,
          \<lparr>name = ''t2'', actuator_names = [''act2''], joint_names = [''j2'']\<rparr>]\<rparr>,
    [Error_FailedToInitializeTransmission])"
proof -
  let ?r = "Robot_ctor (Some example_hw)"
  let ?t1 = "\<lparr>name = ''t1'', actuator_names = [''act1''], joint_names = [''j1'']\<rparr>"
  let ?doc = "robot_element [simple_element ''t1'' ''act1'' ''j1'', element_of_type ''simple'',
                     simple_element ''t2'' ''act2'' ''j2'']"
  have h: "hw ?r = Some example_hw" by (simp add: example_defs)
  have u: "urdf_initXml example_env (robot_model ?r) ?doc = (True, robot_model ?r)"
    by (simp add: example_defs)
  have doc: "ChildElements ?doc ''transmission'' =
     [simple_element ''t1'' ''act1'' ''j1''] @ element_of_type ''simple'' #
     [simple_element ''t2'' ''act2'' ''j2'']"
    by (simp add: example_defs)
  have p: "initXml_loop example_env (?r\<lparr>robot_model := robot_model ?r\<rparr>, [])
             [simple_element ''t1'' ''act1'' ''j1''] = (True, ?r\<lparr>transmissions := [?t1]\<rparr>, [])"
    by (simp add: example_defs)
  have inst: "create_instance example_env (Attribute (element_of_type ''simple'') ''type'') =
                Returns (Some ''simple'')"
    by (simp add: example_defs)
  have fails: "Transmission_initXml example_env ''simple'' (element_of_type ''simple'')
                 (?r\<lparr>transmissions := [?t1]\<rparr>) = None"
    by (simp add: example_defs)
  have post: "\<forall>x\<in>set [simple_element ''t2'' ''act2'' ''j2'']. \<not> loader_throws example_env x"
    by (simp add: loader_throws_def example_defs)
  from initXml_discards_failed_transmission [OF h u doc p inst fails]
  have "initXml example_env ?r ?doc =
          initXml_loop example_env (?r\<lparr>transmissions := [?t1]\<rparr>,
             [] @ [Error_FailedToInitializeTransmission]) [simple_element ''t2'' ''act2'' ''j2'']"
    by simp
  then show ?thesis by (simp add: example_defs)
qed

section \<open>Properties of the lookup by name\<close>

lemma findIndexByName_loop_first:
  "i \<le> k \<Longrightarrow> k < length v \<Longrightarrow> name (v ! k) = nm \<Longrightarrow>
   (\<forall>j. i \<le> j \<and> j < k \<longrightarrow> name (v ! j) \<noteq> nm) \<Longrightarrow>
   findIndexByName_loop v nm i = int k"
proof (induction v nm i rule: findIndexByName_loop.induct)
  case (1 v nm i)
  show ?case
  proof (cases "i = k")
    case True
    with "1.prems" show ?thesis by (subst findIndexByName_loop.simps) simp
  next
    case False
    with "1.prems" have lt: "i < k" and here: "name (v ! i) \<noteq> nm" by auto
    from lt "1.prems" have inside: "i < length v" by simp
    have "findIndexByName_loop v nm (Suc i) = int k"
      using "1.prems" lt by (intro "1.IH" [OF inside here]) auto
    with inside here show ?thesis by (subst findIndexByName_loop.simps) simp
  qed
qed

lemma findIndexByName_loop_absent:
  "(\<forall>j. i \<le> j \<and> j < length v \<longrightarrow> name (v ! j) \<noteq> nm) \<Longrightarrow>
   findIndexByName_loop v nm i = - 1"
proof (induction v nm i rule: findIndexByName_loop.induct)
  case (1 v nm i)
  show ?case
  proof (cases "i < length v")
    case False
    then show ?thesis by (subst findIndexByName_loop.simps) simp
  next
    case True
    with "1.prems" have here: "name (v ! i) \<noteq> nm" by simp
    have "findIndexByName_loop v nm (Suc i) = - 1"
      using "1.prems" by (intro "1.IH" [OF True here]) auto
    with True here show ?thesis by (subst findIndexByName_loop.simps) simp
  qed
qed

lemma first_match_exists:
  "nm \<in> name ` set v \<Longrightarrow>
   \<exists>k. k < length v \<and> name (v ! k) = nm \<and> (\<forall>j<k. name (v ! j) \<noteq> nm)"
proof -
  assume "nm \<in> name ` set v"
  then obtain k0 where k0: "k0 < length v \<and> name (v ! k0) = nm"
    by (auto simp: in_set_conv_nth)
  define k where "k = (LEAST k. k < length v \<and> name (v ! k) = nm)"
  from k0 have a: "k < length v \<and> name (v ! k) = nm"
    unfolding k_def by (rule LeastI)
  have "\<forall>j<k. \<not> (j < length v \<and> name (v ! j) = nm)"
    unfolding k_def using not_less_Least by blast
  with a show ?thesis by (intro exI [of _ k]) auto
qed

lemma findIndexByName_absent_iff:
  "findIndexByName v nm = - 1 \<longleftrightarrow> nm \<notin> name ` set v"
proof
  assume r: "findIndexByName v nm = - 1"
  show "nm \<notin> name ` set v"
  proof
    assume "nm \<in> name ` set v"
    from first_match_exists [OF this] obtain k
      where k: "k < length v" "name (v ! k) = nm" "\<forall>j<k. name (v ! j) \<noteq> nm" by blast
    then have "findIndexByName v nm = int k"
      unfolding findIndexByName_def by (intro findIndexByName_loop_first) auto
    with r show False by simp
  qed
next
  assume "nm \<notin> name ` set v"
  then have "\<forall>j. 0 \<le> j \<and> j < length v \<longrightarrow> name (v ! j) \<noteq> nm"
    by (auto simp: image_iff)
  then show "findIndexByName v nm = - 1"
    unfolding findIndexByName_def by (rule findIndexByName_loop_absent)
qed

lemma findIndexByName_found:
  "findIndexByName v nm \<noteq> - 1 \<Longrightarrow>
   \<exists>k. findIndexByName v nm = int k \<and> k < length v \<and> name (v ! k) = nm \<and>
       (\<forall>j<k. name (v ! j) \<noteq> nm)"
proof -
  assume "findIndexByName v nm \<noteq> - 1"
  then have "nm \<in> name ` set v" by (simp add: findIndexByName_absent_iff)
  from first_match_exists [OF this] obtain k
    where k: "k < length v" "name (v ! k) = nm" "\<forall>j<k. name (v ! j) \<noteq> nm" by blast
  then have "findIndexByName v nm = int k"
    unfolding findIndexByName_def by (intro findIndexByName_loop_first) auto
  with k show ?thesis by blast
qed

text \<open>
  C8. \<open>getTransmissionIndex\<close> scans the transmission list from index 0. It returns \<open>-1\<close>
  exactly when no transmission of the list has the name; any other result is the index,
  within the list, of a transmission with that name. \<open>getTransmission\<close> returns the
  transmission at that index when the index is not negative and null otherwise, so it
  returns null exactly when no transmission has the name.
\<close>

theorem getTransmissionIndex_sentinel:
  "(getTransmissionIndex r nm = - 1 \<longleftrightarrow> nm \<notin> name ` set (transmissions r)) \<and>
   (getTransmissionIndex r nm \<noteq> - 1 \<longrightarrow>
      0 \<le> getTransmissionIndex r nm \<and>
      nat (getTransmissionIndex r nm) < length (transmissions r) \<and>
      name (transmissions r ! nat (getTransmissionIndex r nm)) = nm) \<and>
   getTransmission r nm =
     (if 0 \<le> getTransmissionIndex r nm
      then Some (transmissions r ! nat (getTransmissionIndex r nm)) else None) \<and>
   (getTransmission r nm = None \<longleftrightarrow> nm \<notin> name ` set (transmissions r))"
proof -
  let ?i = "getTransmissionIndex r nm"
  have absent: "?i = - 1 \<longleftrightarrow> nm \<notin> name ` set (transmissions r)"
    by (simp add: getTransmissionIndex_def findIndexByName_absent_iff)
  have found: "0 \<le> ?i \<and> nat ?i < length (transmissions r) \<and> name (transmissions r ! nat ?i) = nm"
    if "?i \<noteq> - 1"
  proof -
    from that findIndexByName_found [of "transmissions r" nm] obtain k
      where "?i = int k" "k < length (transmissions r)" "name (transmissions r ! k) = nm"
      unfolding getTransmissionIndex_def by blast
    then show ?thesis by simp
  qed
  have get: "getTransmission r nm = (if 0 \<le> ?i then Some (transmissions r ! nat ?i) else None)"
    by (simp add: getTransmission_def Let_def)
  have none: "getTransmission r nm = None \<longleftrightarrow> nm \<notin> name ` set (transmissions r)"
  proof (cases "?i = - 1")
    case True
    with absent get show ?thesis by simp
  next
    case False
    with found absent get show ?thesis by simp
  qed
  from absent found get none show ?thesis by blast
qed

theorem getTransmissionIndex_sentinel_witness:
  "getTransmissionIndex example_robot ''c'' = - 1 \<and>
   getTransmission example_robot ''c'' = None \<and>
   getTransmissionIndex example_robot ''b'' \<noteq> - 1 \<and>
   name (transmissions example_robot ! nat (getTransmissionIndex example_robot ''b'')) = ''b'' \<and>
   getTransmission example_robot ''b'' \<noteq> None"
proof -
  from getTransmissionIndex_sentinel [of example_robot "''c''"]
  have c: "getTransmissionIndex example_robot ''c'' = - 1 \<and> getTransmission example_robot ''c'' = None"
    by (simp add: example_robot_def)
  note b = getTransmissionIndex_sentinel [of example_robot "''b''"]
  from b have b1: "getTransmissionIndex example_robot ''b'' \<noteq> - 1"
    by (simp add: example_robot_def)
  with b have b2: "name (transmissions example_robot ! nat (getTransmissionIndex example_robot ''b'')) = ''b''"
    by blast
  from b have b3: "getTransmission example_robot ''b'' \<noteq> None"
    by (simp add: example_robot_def)
  from c b1 b2 b3 show ?thesis by simp
qed

section \<open>Properties of the constructor of RobotState\<close>

lemma ctor_actuators_Inr:
  "ctor_actuators i t j rs = Inr rs' \<Longrightarrow> j \<le> length (actuator_names t) \<Longrightarrow>
   \<exists>acts. rs' = rs\<lparr>transmissions_in :=
                      (transmissions_in rs)[i := transmissions_in rs ! i @ acts]\<rparr> \<and>
          list_all2 (resolves (model rs)) (drop j (actuator_names t)) acts"
proof (induction i t j rs rule: ctor_actuators.induct)
  case (1 i t j rs)
  show ?case
  proof (cases "j < length (actuator_names t)")
    case False
    with "1.prems"(1) have "rs' = rs"
      by (subst (asm) ctor_actuators.simps) simp
    moreover from False have "drop j (actuator_names t) = []" by simp
    ultimately have "rs' = rs" and "drop j (actuator_names t) = []" by simp_all
    then show ?thesis by (intro exI [of _ "[]"]) simp
  next
    case True
    with "1.prems" obtain act
      where a: "getActuator (model rs) (actuator_names t ! j) = Inr (Some act)"
        and b: "i < length (transmissions_in rs)"
        and c: "ctor_actuators i t (Suc j)
                  (rs\<lparr>transmissions_in :=
                        (transmissions_in rs)[i := transmissions_in rs ! i @ [act]]\<rparr>) = Inr rs'"
      by (subst (asm) ctor_actuators.simps) (simp split: sum.splits option.splits if_splits)
    from True have "Suc j \<le> length (actuator_names t)" by simp
    from "1.IH" [OF True a refl b c this] obtain acts
      where r: "rs' = rs\<lparr>transmissions_in :=
                         (transmissions_in rs)[i := transmissions_in rs ! i @ act # acts]\<rparr>"
        and l: "list_all2 (resolves (model rs)) (drop (Suc j) (actuator_names t)) acts"
      using b by auto
    from True have d: "drop j (actuator_names t) = actuator_names t ! j # drop (Suc j) (actuator_names t)"
      by (simp add: Cons_nth_drop_Suc)
    from l a have "list_all2 (resolves (model rs)) (drop j (actuator_names t)) (act # acts)"
      by (simp add: d resolves_def)
    with r show ?thesis by blast
  qed
qed

lemma ctor_bind_actuators_Inr:
  "ctor_bind_actuators i (rs, n) = Inr (rs', n') \<Longrightarrow>
   length (transmissions_in rs) = length (transmissions (model rs)) \<Longrightarrow>
   (\<forall>k. i \<le> k \<and> k < length (transmissions_in rs) \<longrightarrow> transmissions_in rs ! k = []) \<Longrightarrow>
   n' = n + sum_list (map (\<lambda>t. length (joint_names t)) (drop i (transmissions (model rs)))) \<and>
   (\<exists>rows. rs' = rs\<lparr>transmissions_in := take i (transmissions_in rs) @ rows\<rparr> \<and>
      list_all2 (\<lambda>t row. list_all2 (resolves (model rs)) (actuator_names t) row)
        (drop i (transmissions (model rs))) rows)"
proof (induction i "(rs, n)" arbitrary: rs n rule: ctor_bind_actuators.induct)
  case (1 i rs n)
  let ?ts = "transmissions (model rs)"
  show ?case
  proof (cases "i < length ?ts")
    case False
    with "1.prems"(1) have "rs' = rs \<and> n' = n"
      by (subst (asm) ctor_bind_actuators.simps) simp
    with False "1.prems"(2)
    have "rs' = rs" "n' = n" "drop i ?ts = []" "take i (transmissions_in rs) = transmissions_in rs"
      by simp_all
    then show ?thesis by simp
  next
    case True
    with "1.prems"(1) obtain rs1
      where a: "ctor_actuators i (?ts ! i) 0 rs = Inr rs1"
        and c: "ctor_bind_actuators (Suc i) (rs1, n + length (joint_names (?ts ! i))) = Inr (rs', n')"
      by (subst (asm) ctor_bind_actuators.simps) (simp add: Let_def split: sum.splits)
    from ctor_actuators_Inr [OF a] "1.prems" True obtain acts
      where rs1: "rs1 = rs\<lparr>transmissions_in := (transmissions_in rs)[i := acts]\<rparr>"
        and acts: "list_all2 (resolves (model rs)) (actuator_names (?ts ! i)) acts"
      by auto
    have len1: "length (transmissions_in rs1) = length (transmissions (model rs1))"
      using "1.prems" by (simp add: rs1)
    have empty1: "\<forall>k. Suc i \<le> k \<and> k < length (transmissions_in rs1) \<longrightarrow> transmissions_in rs1 ! k = []"
      using "1.prems" by (simp add: rs1)
    from "1.hyps" [OF True refl a c len1 empty1] obtain rows
      where n': "n' = n + length (joint_names (?ts ! i)) +
                   sum_list (map (\<lambda>t. length (joint_names t)) (drop (Suc i) ?ts))"
        and rs': "rs' = rs1\<lparr>transmissions_in := take (Suc i) (transmissions_in rs1) @ rows\<rparr>"
        and rows: "list_all2 (\<lambda>t row. list_all2 (resolves (model rs)) (actuator_names t) row)
                     (drop (Suc i) ?ts) rows"
      by (auto simp: rs1)
    from True have d: "drop i ?ts = ?ts ! i # drop (Suc i) ?ts"
      by (simp add: Cons_nth_drop_Suc)
    from True "1.prems" have "take (Suc i) (transmissions_in rs1) = take i (transmissions_in rs) @ [acts]"
      by (simp add: rs1 take_Suc_conv_app_nth)
    with rs' have "rs' = rs\<lparr>transmissions_in := take i (transmissions_in rs) @ acts # rows\<rparr>"
      by (simp add: rs1)
    moreover from acts rows
    have "list_all2 (\<lambda>t row. list_all2 (resolves (model rs)) (actuator_names t) row)
            (drop i ?ts) (acts # rows)"
      by (simp add: d)
    moreover from n' have "n' = n + sum_list (map (\<lambda>t. length (joint_names t)) (drop i ?ts))"
      by (simp add: d)
    ultimately show ?thesis by blast
  qed
qed

lemma map_upds_append_same_length:
  "length xs = length as \<Longrightarrow> m(xs @ ys [\<mapsto>] as @ bs) = (m(xs [\<mapsto>] as))(ys [\<mapsto>] bs)"
  by (induction xs as arbitrary: m rule: list_induct2) simp_all

lemma ctor_joints_eq:
  assumes "i < length (transmissions_out rs)"
    and "j \<le> length (joint_names t)"
    and "joint_states rs = finished @ replicate r js0"
    and "length finished = js_id"
    and "length (joint_names t) - j \<le> r"
  shows "ctor_joints i t j (rs, js_id) =
     Inr (rs\<lparr>joint_states :=
               finished @ map (wired js0 (robot_model (model rs))) (drop j (joint_names t)) @
               replicate (r - (length (joint_names t) - j)) js0,
             joint_states_map :=
               (joint_states_map rs)
                 (drop j (joint_names t) [\<mapsto>] [js_id..<js_id + (length (joint_names t) - j)]),
             transmissions_out :=
               (transmissions_out rs)
                 [i := transmissions_out rs ! i @ [js_id..<js_id + (length (joint_names t) - j)]]\<rparr>,
          js_id + (length (joint_names t) - j))"
  using assms
proof (induction k \<equiv> "length (joint_names t) - j" arbitrary: j rs js_id finished r)
  case 0
  then have "j = length (joint_names t)" by simp
  with "0.prems" show ?case by (subst ctor_joints.simps) simp
next
  case (Suc k)
  let ?ns = "joint_names t"
  note prems = Suc.prems
  from Suc.hyps(2) have True: "j < length ?ns" by simp
  show ?case
  proof -
    from True prems have r: "0 < r" by simp
    with prems have here: "js_id < length (joint_states rs)" by simp
    let ?w = "wired js0 (robot_model (model rs)) (?ns ! j)"
    let ?rs1 = "rs\<lparr>joint_states :=
                   (joint_states rs)[js_id := (joint_states rs ! js_id)
                      \<lparr>joint := getJoint (robot_model (model rs)) (joint_names t ! j)\<rparr>],
                 joint_states_map := (joint_states_map rs)(joint_names t ! j \<mapsto> js_id),
                 transmissions_out :=
                   (transmissions_out rs)[i := transmissions_out rs ! i @ [js_id]]\<rparr>"
    from prems have id: "js_id = length finished" by simp
    from r prems(3) have slot: "joint_states rs ! js_id = js0"
      unfolding id by (cases r) simp_all
    from r prems(3) have upd: "joint_states ?rs1 = (finished @ [?w]) @ replicate (r - 1) js0"
      unfolding id by (cases r) (simp_all add: wired_def)
    have step: "ctor_joints i t j (rs, js_id) = ctor_joints i t (Suc j) (?rs1, Suc js_id)"
      using True here prems(1) by (subst ctor_joints.simps) simp
    have ih: "ctor_joints i t (Suc j) (?rs1, Suc js_id) =
      Inr (?rs1\<lparr>joint_states :=
               (finished @ [?w]) @ map (wired js0 (robot_model (model ?rs1))) (drop (Suc j) ?ns) @
               replicate (r - 1 - (length ?ns - Suc j)) js0,
             joint_states_map :=
               (joint_states_map ?rs1)
                 (drop (Suc j) ?ns [\<mapsto>] [Suc js_id..<Suc js_id + (length ?ns - Suc j)]),
             transmissions_out :=
               (transmissions_out ?rs1)
                 [i := transmissions_out ?rs1 ! i @ [Suc js_id..<Suc js_id + (length ?ns - Suc j)]]\<rparr>,
          Suc js_id + (length ?ns - Suc j))"
    proof (rule Suc.hyps(1))
      show "k = length (joint_names t) - Suc j" using Suc.hyps(2) by simp
      show "i < length (transmissions_out ?rs1)" using prems(1) by simp
      show "Suc j \<le> length ?ns" using True by simp
      show "joint_states ?rs1 = (finished @ [?w]) @ replicate (r - 1) js0" by (rule upd)
      show "length (finished @ [?w]) = Suc js_id" using prems by simp
      show "length ?ns - Suc j \<le> r - 1" using prems True by simp
    qed
    from True have d: "drop j ?ns = ?ns ! j # drop (Suc j) ?ns"
      by (simp add: Cons_nth_drop_Suc)
    from True have u: "[js_id..<js_id + (length ?ns - j)] =
                        js_id # [Suc js_id..<Suc js_id + (length ?ns - Suc j)]"
      by (simp add: upt_conv_Cons Suc_diff_Suc)
    from True have k: "Suc js_id + (length ?ns - Suc j) = js_id + (length ?ns - j)"
      and k': "r - 1 - (length ?ns - Suc j) = r - (length ?ns - j)"
      by simp_all
    show ?thesis
      unfolding step ih d u k k' using prems(1) by simp
  qed
qed

lemma ctor_wire_joints_eq:
  assumes "length (transmissions_out rs) = length (transmissions (model rs))"
    and "\<forall>k. i \<le> k \<and> k < length (transmissions_out rs) \<longrightarrow> transmissions_out rs ! k = []"
    and "joint_states rs = finished @ replicate r js0"
    and "length finished = js_id"
    and "length (concat (map joint_names (drop i (transmissions (model rs))))) \<le> r"
  shows "ctor_wire_joints i (rs, js_id) =
     Inr (rs\<lparr>joint_states :=
               finished @
               map (wired js0 (robot_model (model rs)))
                 (concat (map joint_names (drop i (transmissions (model rs))))) @
               replicate (r - length (concat (map joint_names (drop i (transmissions (model rs)))))) js0,
             joint_states_map :=
               (joint_states_map rs)
                 (concat (map joint_names (drop i (transmissions (model rs)))) [\<mapsto>]
                  [js_id..<js_id + length (concat (map joint_names (drop i (transmissions (model rs)))))]),
             transmissions_out :=
               take i (transmissions_out rs) @
               out_rows js_id (map joint_names (drop i (transmissions (model rs))))\<rparr>,
          js_id + length (concat (map joint_names (drop i (transmissions (model rs))))))"
  using assms
proof (induction k \<equiv> "length (transmissions (model rs)) - i" arbitrary: i rs js_id finished r)
  case 0
  then have e: "drop i (transmissions (model rs)) = []"
    and tk: "take i (transmissions_out rs) = transmissions_out rs"
    and stop: "\<not> i < length (transmissions (model rs))"
    by simp_all
  have same: "rs\<lparr>joint_states :=
               finished @
               map (wired js0 (robot_model (model rs)))
                 (concat (map joint_names (drop i (transmissions (model rs))))) @
               replicate (r - length (concat (map joint_names (drop i (transmissions (model rs)))))) js0,
             joint_states_map :=
               (joint_states_map rs)
                 (concat (map joint_names (drop i (transmissions (model rs)))) [\<mapsto>]
                  [js_id..<js_id + length (concat (map joint_names (drop i (transmissions (model rs)))))]),
             transmissions_out :=
               take i (transmissions_out rs) @
               out_rows js_id (map joint_names (drop i (transmissions (model rs))))\<rparr> = rs"
    unfolding e tk by (simp add: "0.prems"(3) [symmetric])
  have run: "ctor_wire_joints i (rs, js_id) = Inr (rs, js_id)"
    by (subst ctor_wire_joints.simps) (simp only: stop if_False)
  show ?case
    unfolding run same by (simp only: e list.map concat.simps list.size add_0_right)
next
  case (Suc k)
  define ts where "ts = transmissions (model rs)"
  define ns where "ns = joint_names (ts ! i)"
  define rest where "rest = concat (map joint_names (drop (Suc i) ts))"
  define w where "w = wired js0 (robot_model (model rs))"
  define rs1 where "rs1 = rs\<lparr>joint_states := finished @ map w ns @ replicate (r - length ns) js0,
             joint_states_map := (joint_states_map rs)(ns [\<mapsto>] [js_id..<js_id + length ns]),
             transmissions_out := (transmissions_out rs)[i := [js_id..<js_id + length ns]]\<rparr>"
  note prems = Suc.prems [folded ts_def]
  from Suc.hyps(2) have lt: "i < length ts" by (simp add: ts_def)
  then have d: "drop i ts = ts ! i # drop (Suc i) ts"
    by (simp add: Cons_nth_drop_Suc)
  have flat: "concat (map joint_names (drop i ts)) = ns @ rest"
    by (simp add: d ns_def rest_def)
  from lt prems(1,2) have row: "transmissions_out rs ! i = []" by simp
  have m1: "model rs1 = model rs" by (simp add: rs1_def)
  have inner: "ctor_joints i (ts ! i) 0 (rs, js_id) = Inr (rs1, js_id + length ns)"
  proof -
    have p1: "i < length (transmissions_out rs)" using lt prems(1) by simp
    have p2: "0 \<le> length (joint_names (ts ! i))" by simp
    have p5: "length (joint_names (ts ! i)) - 0 \<le> r" using prems(5) by (simp add: d)
    from ctor_joints_eq [OF p1 p2 prems(3) prems(4) p5] show ?thesis
      unfolding drop_0 diff_zero row append_Nil rs1_def ns_def w_def .
  qed
  have step: "ctor_wire_joints i (rs, js_id) = ctor_wire_joints (Suc i) (rs1, js_id + length ns)"
    by (subst ctor_wire_joints.simps) (simp only: lt ts_def [symmetric] if_True inner sum.case)
  have ih: "ctor_wire_joints (Suc i) (rs1, js_id + length ns) =
     Inr (rs1\<lparr>joint_states :=
               (finished @ map w ns) @
               map (wired js0 (robot_model (model rs1)))
                 (concat (map joint_names (drop (Suc i) (transmissions (model rs1))))) @
               replicate (r - length ns -
                 length (concat (map joint_names (drop (Suc i) (transmissions (model rs1)))))) js0,
             joint_states_map :=
               (joint_states_map rs1)
                 (concat (map joint_names (drop (Suc i) (transmissions (model rs1)))) [\<mapsto>]
                  [js_id + length ns..<js_id + length ns +
                     length (concat (map joint_names (drop (Suc i) (transmissions (model rs1)))))]),
             transmissions_out :=
               take (Suc i) (transmissions_out rs1) @
               out_rows (js_id + length ns) (map joint_names (drop (Suc i) (transmissions (model rs1))))\<rparr>,
          js_id + length ns +
            length (concat (map joint_names (drop (Suc i) (transmissions (model rs1))))))"
  proof (rule Suc.hyps(1))
    show "k = length (transmissions (model rs1)) - Suc i"
      using Suc.hyps(2) by (simp add: m1)
    show "length (transmissions_out rs1) = length (transmissions (model rs1))"
      using prems(1) by (simp add: rs1_def ts_def)
    show "\<forall>k. Suc i \<le> k \<and> k < length (transmissions_out rs1) \<longrightarrow> transmissions_out rs1 ! k = []"
      using prems(2) by (simp add: rs1_def)
    show "joint_states rs1 = (finished @ map w ns) @ replicate (r - length ns) js0"
      by (simp add: rs1_def)
    show "length (finished @ map w ns) = js_id + length ns"
      using prems(4) by simp
    show "length (concat (map joint_names (drop (Suc i) (transmissions (model rs1))))) \<le> r - length ns"
      using prems(5) by (simp add: m1 ts_def [symmetric] flat rest_def [symmetric])
  qed
  have tk: "take (Suc i) (transmissions_out rs1) = take i (transmissions_out rs) @ [[js_id..<js_id + length ns]]"
    using lt prems(1) by (simp add: rs1_def take_Suc_conv_app_nth)
  have upt: "[js_id..<js_id + (length ns + length rest)] =
               [js_id..<js_id + length ns] @ [js_id + length ns..<js_id + length ns + length rest]"
    using upt_add_eq_append [of js_id "js_id + length ns" "length rest"]
    by (simp add: add.assoc)
  have mp: "(joint_states_map rs)(ns @ rest [\<mapsto>] [js_id..<js_id + (length ns + length rest)]) =
              ((joint_states_map rs)(ns [\<mapsto>] [js_id..<js_id + length ns]))
                (rest [\<mapsto>] [js_id + length ns..<js_id + (length ns + length rest)])"
    unfolding upt by (simp add: map_upds_append_same_length add.assoc)
  have rows: "out_rows js_id (map joint_names (drop i ts)) =
                [js_id..<js_id + length ns] # out_rows (js_id + length ns) (map joint_names (drop (Suc i) ts))"
    by (simp add: d ns_def)
  have res: "ctor_wire_joints i (rs, js_id) =
     Inr (rs1\<lparr>joint_states := (finished @ map w ns) @ map w rest @ replicate (r - length ns - length rest) js0,
             joint_states_map :=
               (joint_states_map rs1)(rest [\<mapsto>] [js_id + length ns..<js_id + length ns + length rest]),
             transmissions_out :=
               (take i (transmissions_out rs) @ [[js_id..<js_id + length ns]]) @
               out_rows (js_id + length ns) (map joint_names (drop (Suc i) ts))\<rparr>,
          js_id + length ns + length rest)"
    unfolding step ih m1 tk ts_def [symmetric] rest_def [symmetric] w_def [symmetric] ..
  show ?case
    unfolding res ts_def [symmetric] flat rows w_def [symmetric]
    by (simp add: rs1_def add.assoc mp)
qed

lemma RobotState_ctor_Inr:
  assumes "RobotState_ctor js0 (Some m) = Inr (rs, lg)"
  shows "model rs = m"
    and "list_all2 (\<lambda>t row. list_all2 (resolves m) (actuator_names t) row)
           (transmissions m) (transmissions_in rs)"
    and "joint_states rs = map (wired js0 (robot_model m)) (declared_joint_names m)"
    and "joint_states_map rs =
           Map.empty(declared_joint_names m [\<mapsto>] [0..<length (declared_joint_names m)])"
    and "transmissions_out rs = out_rows 0 (map joint_names (transmissions m))"
    and "lg = (if transmissions m = [] then [Warn_NoTransmissions] else []) @
              (if declared_joint_names m = [] then [Warn_NoJoints] else [])"
proof -
  let ?rs0 = "\<lparr>model = m, joint_states = [],
                    transmissions_in = replicate (length (transmissions m)) [],
                    transmissions_out = replicate (length (transmissions m)) [],
                    joint_states_map = Map.empty\<rparr>"
  from assms obtain rs1 n js_id
    where bind: "ctor_bind_actuators 0 (?rs0, 0) = Inr (rs1, n)"
      and wire: "ctor_wire_joints 0 (rs1\<lparr>joint_states := replicate n js0\<rparr>, 0) = Inr (rs, js_id)"
      and warn: "lg = (if transmissions m = [] then [Warn_NoTransmissions] else []) @
                      (if n = 0 then [Warn_NoJoints] else [])"
    unfolding RobotState_ctor_def
    by (auto split: sum.splits)
  have "length (transmissions_in ?rs0) = length (transmissions (model ?rs0))"
    and "\<forall>k. 0 \<le> k \<and> k < length (transmissions_in ?rs0) \<longrightarrow> transmissions_in ?rs0 ! k = []"
    by simp_all
  from ctor_bind_actuators_Inr [OF bind this] obtain rows
    where n: "n = sum_list (map (\<lambda>t. length (joint_names t)) (transmissions m))"
      and rs1: "rs1 = ?rs0\<lparr>transmissions_in := rows\<rparr>"
      and rows: "list_all2 (\<lambda>t row. list_all2 (resolves m) (actuator_names t) row)
                   (transmissions m) rows"
    by auto
  have len: "n = length (declared_joint_names m)"
    by (simp add: n declared_joint_names_def length_concat comp_def)
  define rs2 where "rs2 = rs1\<lparr>joint_states := replicate n js0\<rparr>"
  have m2: "model rs2 = m" by (simp add: rs2_def rs1)
  have "ctor_wire_joints 0 (rs2, 0) =
     Inr (rs2\<lparr>joint_states :=
               [] @
               map (wired js0 (robot_model (model rs2)))
                 (concat (map joint_names (drop 0 (transmissions (model rs2))))) @
               replicate (n - length (concat (map joint_names (drop 0 (transmissions (model rs2)))))) js0,
             joint_states_map :=
               (joint_states_map rs2)
                 (concat (map joint_names (drop 0 (transmissions (model rs2)))) [\<mapsto>]
                  [0..<0 + length (concat (map joint_names (drop 0 (transmissions (model rs2)))))]),
             transmissions_out :=
               take 0 (transmissions_out rs2) @
               out_rows 0 (map joint_names (drop 0 (transmissions (model rs2))))\<rparr>,
          0 + length (concat (map joint_names (drop 0 (transmissions (model rs2))))))"
  proof (rule ctor_wire_joints_eq)
    show "length (transmissions_out rs2) = length (transmissions (model rs2))"
      by (simp add: rs2_def rs1)
    show "\<forall>k. 0 \<le> k \<and> k < length (transmissions_out rs2) \<longrightarrow> transmissions_out rs2 ! k = []"
      by (simp add: rs2_def rs1)
    show "joint_states rs2 = [] @ replicate n js0" by (simp add: rs2_def)
    show "length ([] :: JointState list) = 0" by simp
    show "length (concat (map joint_names (drop 0 (transmissions (model rs2))))) \<le> n"
      by (simp add: m2 len declared_joint_names_def)
  qed
  with wire have rs: "rs = rs2\<lparr>joint_states := map (wired js0 (robot_model m)) (declared_joint_names m),
             joint_states_map :=
               (joint_states_map rs2)
                 (declared_joint_names m [\<mapsto>] [0..<length (declared_joint_names m)]),
             transmissions_out := out_rows 0 (map joint_names (transmissions m))\<rparr>"
    unfolding rs2_def [symmetric] m2
    by (auto simp: declared_joint_names_def [symmetric] len)
  show "model rs = m" by (simp add: rs m2)
  show "list_all2 (\<lambda>t row. list_all2 (resolves m) (actuator_names t) row)
           (transmissions m) (transmissions_in rs)"
    using rows by (simp add: rs rs2_def rs1)
  show "joint_states rs = map (wired js0 (robot_model m)) (declared_joint_names m)"
    by (simp add: rs)
  show "joint_states_map rs =
           Map.empty(declared_joint_names m [\<mapsto>] [0..<length (declared_joint_names m)])"
    by (simp add: rs rs2_def rs1)
  show "transmissions_out rs = out_rows 0 (map joint_names (transmissions m))"
    by (simp add: rs)
  show "lg = (if transmissions m = [] then [Warn_NoTransmissions] else []) @
              (if declared_joint_names m = [] then [Warn_NoJoints] else [])"
    using warn len by simp
qed

text \<open>
  When the constructor returns: exactly when every actuator name that a transmission
  declares resolves in the hardware interface. An index beyond the end of a vector never
  stops it.
\<close>

lemma ctor_actuators_succeeds:
  assumes "i < length (transmissions_in rs)"
    and "\<forall>nm\<in>set (drop j (actuator_names t)). \<exists>act. resolves (model rs) nm act"
  shows "\<exists>rs'. ctor_actuators i t j rs = Inr rs'"
  using assms
proof (induction k \<equiv> "length (actuator_names t) - j" arbitrary: j rs)
  case 0
  then have "\<not> j < length (actuator_names t)" by simp
  then have "ctor_actuators i t j rs = Inr rs"
    by (subst ctor_actuators.simps) simp
  then show ?case by blast
next
  case (Suc k)
  from Suc.hyps(2) have lt: "j < length (actuator_names t)" by simp
  then have d: "drop j (actuator_names t) = actuator_names t ! j # drop (Suc j) (actuator_names t)"
    by (simp add: Cons_nth_drop_Suc)
  with Suc.prems(2) obtain act
    where act: "getActuator (model rs) (actuator_names t ! j) = Inr (Some act)"
    by (auto simp: resolves_def)
  define rs1 where "rs1 = rs\<lparr>transmissions_in :=
                        (transmissions_in rs)[i := transmissions_in rs ! i @ [act]]\<rparr>"
  have step: "ctor_actuators i t j rs = ctor_actuators i t (Suc j) rs1"
    using lt act Suc.prems(1) by (subst ctor_actuators.simps) (simp add: rs1_def)
  have "\<exists>rs'. ctor_actuators i t (Suc j) rs1 = Inr rs'"
  proof (rule Suc.hyps(1))
    show "k = length (actuator_names t) - Suc j" using Suc.hyps(2) by simp
    show "i < length (transmissions_in rs1)" using Suc.prems(1) by (simp add: rs1_def)
    show "\<forall>nm\<in>set (drop (Suc j) (actuator_names t)). \<exists>act. resolves (model rs1) nm act"
      using Suc.prems(2) by (simp add: d rs1_def)
  qed
  with step show ?case by simp
qed

lemma ctor_bind_actuators_succeeds:
  assumes "length (transmissions_in rs) = length (transmissions (model rs))"
    and "\<forall>t\<in>set (drop i (transmissions (model rs))). \<forall>nm\<in>set (actuator_names t).
           \<exists>act. resolves (model rs) nm act"
  shows "\<exists>s. ctor_bind_actuators i (rs, n) = Inr s"
  using assms
proof (induction k \<equiv> "length (transmissions (model rs)) - i" arbitrary: i rs n)
  case 0
  then have "\<not> i < length (transmissions (model rs))" by simp
  then have "ctor_bind_actuators i (rs, n) = Inr (rs, n)"
    by (subst ctor_bind_actuators.simps) simp
  then show ?case by blast
next
  case (Suc k)
  let ?ts = "transmissions (model rs)"
  from Suc.hyps(2) have lt: "i < length ?ts" by simp
  then have d: "drop i ?ts = ?ts ! i # drop (Suc i) ?ts"
    by (simp add: Cons_nth_drop_Suc)
  have "\<exists>rs'. ctor_actuators i (?ts ! i) 0 rs = Inr rs'"
  proof (rule ctor_actuators_succeeds)
    show "i < length (transmissions_in rs)" using lt Suc.prems(1) by simp
    show "\<forall>nm\<in>set (drop 0 (actuator_names (?ts ! i))). \<exists>act. resolves (model rs) nm act"
      using Suc.prems(2) by (simp add: d)
  qed
  then obtain rs1 where inner: "ctor_actuators i (?ts ! i) 0 rs = Inr rs1" by blast
  from ctor_actuators_Inr [OF inner] obtain acts
    where rs1: "rs1 = rs\<lparr>transmissions_in :=
                         (transmissions_in rs)[i := transmissions_in rs ! i @ acts]\<rparr>"
    by auto
  have step: "ctor_bind_actuators i (rs, n) =
                ctor_bind_actuators (Suc i) (rs1, n + length (joint_names (?ts ! i)))"
    using lt inner by (subst ctor_bind_actuators.simps) (simp add: Let_def)
  have "\<exists>s. ctor_bind_actuators (Suc i) (rs1, n + length (joint_names (?ts ! i))) = Inr s"
  proof (rule Suc.hyps(1))
    show "k = length (transmissions (model rs1)) - Suc i"
      using Suc.hyps(2) by (simp add: rs1)
    show "length (transmissions_in rs1) = length (transmissions (model rs1))"
      using Suc.prems(1) by (simp add: rs1)
    show "\<forall>t\<in>set (drop (Suc i) (transmissions (model rs1))). \<forall>nm\<in>set (actuator_names t).
           \<exists>act. resolves (model rs1) nm act"
      using Suc.prems(2) by (simp add: d rs1)
  qed
  with step show ?case by simp
qed

lemma RobotState_ctor_succeeds:
  assumes "\<forall>t\<in>set (transmissions m). \<forall>nm\<in>set (actuator_names t). \<exists>act. resolves m nm act"
  shows "\<exists>rs lg. RobotState_ctor js0 (Some m) = Inr (rs, lg)"
proof -
  let ?rs0 = "\<lparr>model = m, joint_states = [],
                    transmissions_in = replicate (length (transmissions m)) [],
                    transmissions_out = replicate (length (transmissions m)) [],
                    joint_states_map = Map.empty\<rparr>"
  have len0: "length (transmissions_in ?rs0) = length (transmissions (model ?rs0))"
    and empty0: "\<forall>k. 0 \<le> k \<and> k < length (transmissions_in ?rs0) \<longrightarrow> transmissions_in ?rs0 ! k = []"
    by simp_all
  have "\<exists>s. ctor_bind_actuators 0 (?rs0, 0) = Inr s"
    by (rule ctor_bind_actuators_succeeds) (use assms in simp_all)
  then obtain rs1 n where bind: "ctor_bind_actuators 0 (?rs0, 0) = Inr (rs1, n)"
    by (metis surj_pair)
  from ctor_bind_actuators_Inr [OF bind len0 empty0] obtain rows
    where n: "n = sum_list (map (\<lambda>t. length (joint_names t)) (transmissions m))"
      and rs1: "rs1 = ?rs0\<lparr>transmissions_in := rows\<rparr>"
    by auto
  define rs2 where "rs2 = rs1\<lparr>joint_states := replicate n js0\<rparr>"
  have "\<exists>s. ctor_wire_joints 0 (rs2, 0) = Inr s"
  proof (rule exI, rule ctor_wire_joints_eq)
    show "length (transmissions_out rs2) = length (transmissions (model rs2))"
      by (simp add: rs2_def rs1)
    show "\<forall>k. 0 \<le> k \<and> k < length (transmissions_out rs2) \<longrightarrow> transmissions_out rs2 ! k = []"
      by (simp add: rs2_def rs1)
    show "joint_states rs2 = [] @ replicate n js0" by (simp add: rs2_def)
    show "length ([] :: JointState list) = 0" by simp
    show "length (concat (map joint_names (drop 0 (transmissions (model rs2))))) \<le> n"
      by (simp add: rs2_def rs1 n length_concat comp_def)
  qed
  then obtain rs js_id where wire: "ctor_wire_joints 0 (rs2, 0) = Inr (rs, js_id)"
    by (metis surj_pair)
  from bind wire show ?thesis
    by (simp add: RobotState_ctor_def rs2_def)
qed

lemma RobotState_ctor_succeeds_iff:
  "(\<exists>rs lg. RobotState_ctor js0 (Some m) = Inr (rs, lg)) \<longleftrightarrow>
     (\<forall>t\<in>set (transmissions m). \<forall>nm\<in>set (actuator_names t). \<exists>act. resolves m nm act)"
proof
  assume "\<exists>rs lg. RobotState_ctor js0 (Some m) = Inr (rs, lg)"
  then obtain rs lg where "RobotState_ctor js0 (Some m) = Inr (rs, lg)" by blast
  from RobotState_ctor_Inr(2) [OF this]
  have rows: "list_all2 (\<lambda>t row. list_all2 (resolves m) (actuator_names t) row)
                (transmissions m) (transmissions_in rs)" .
  show "\<forall>t\<in>set (transmissions m). \<forall>nm\<in>set (actuator_names t). \<exists>act. resolves m nm act"
  proof (intro ballI)
    fix t nm assume t: "t \<in> set (transmissions m)" and nm: "nm \<in> set (actuator_names t)"
    from rows t obtain row where "list_all2 (resolves m) (actuator_names t) row"
      by (auto simp: in_set_conv_nth list_all2_conv_all_nth)
    with nm show "\<exists>act. resolves m nm act"
      by (auto simp: in_set_conv_nth list_all2_conv_all_nth)
  qed
next
  assume "\<forall>t\<in>set (transmissions m). \<forall>nm\<in>set (actuator_names t). \<exists>act. resolves m nm act"
  then show "\<exists>rs lg. RobotState_ctor js0 (Some m) = Inr (rs, lg)"
    by (rule RobotState_ctor_succeeds)
qed

text \<open>The constructor on the robot of the small description.\<close>

lemma example_ctor: "RobotState_ctor example_js0 (Some example_robot) = Inr (example_state, [])"
  by (simp add: RobotState_ctor_def example_robot_def example_state_def example_hw_def
      ctor_bind_actuators.simps ctor_actuators.simps ctor_wire_joints.simps ctor_joints.simps
      getActuator_def HardwareInterface_getActuator_def getJoint_def example_js0_def eval_nat_numeral)

lemma length_out_rows: "length (out_rows k nss) = length nss"
  by (induction nss arbitrary: k) auto

lemma out_rows_nth:
  "i < length nss \<Longrightarrow>
   out_rows k nss ! i =
     [k + length (concat (take i nss))..<k + length (concat (take i nss)) + length (nss ! i)]"
proof (induction nss arbitrary: k i)
  case Nil
  then show ?case by simp
next
  case (Cons ns nss)
  show ?case
  proof (cases i)
    case 0
    then show ?thesis by simp
  next
    case (Suc i')
    with Cons.prems have "i' < length nss" by simp
    from Cons.IH [OF this, of "k + length ns"] show ?thesis
      by (simp add: Suc add.assoc)
  qed
qed

lemma concat_out_rows: "concat (out_rows k nss) = [k..<k + length (concat nss)]"
proof (induction nss arbitrary: k)
  case Nil
  show ?case by simp
next
  case (Cons ns nss)
  have "[k..<k + length ns + length (concat nss)] =
          [k..<k + length ns] @ [k + length ns..<k + length ns + length (concat nss)]"
    by (rule upt_add_eq_append) simp
  then show ?case by (simp add: Cons.IH add.assoc)
qed

lemma concat_take_less:
  "i < length nss \<Longrightarrow> j < length (nss ! i) \<Longrightarrow>
   length (concat (take i nss)) + j < length (concat nss)"
proof (induction nss arbitrary: i)
  case Nil
  then show ?case by simp
next
  case (Cons ns nss)
  then show ?case by (cases i) auto
qed

lemma concat_nth_slot:
  "i < length nss \<Longrightarrow> j < length (nss ! i) \<Longrightarrow>
   concat nss ! (length (concat (take i nss)) + j) = nss ! i ! j"
proof (induction nss arbitrary: i)
  case Nil
  then show ?case by simp
next
  case (Cons ns nss)
  then show ?case by (cases i) (auto simp: nth_append)
qed

lemma slot_of_concat:
  "slot_of m i j = length (concat (take i (map joint_names (transmissions m)))) + j"
  by (simp add: slot_of_def length_concat take_map comp_def)

lemma index_map_Some:
  "(Map.empty(xs [\<mapsto>] [0..<length xs])) nm = Some k \<longleftrightarrow>
     k < length xs \<and> xs ! k = nm \<and> (\<forall>k'. k < k' \<and> k' < length xs \<longrightarrow> xs ! k' \<noteq> nm)"
proof (induction xs arbitrary: k rule: rev_induct)
  case Nil
  show ?case by simp
next
  case (snoc x xs)
  have upd: "Map.empty(xs @ [x] [\<mapsto>] [0..<length (xs @ [x])]) =
               (Map.empty(xs [\<mapsto>] [0..<length xs]))(x \<mapsto> length xs)"
    using map_upds_append_same_length [of xs "[0..<length xs]" Map.empty "[x]" "[length xs]"]
    by simp
  show ?case
  proof (cases "nm = x")
    case True
    have "(k < Suc (length xs) \<and> (xs @ [x]) ! k = x \<and>
            (\<forall>k'. k < k' \<and> k' < Suc (length xs) \<longrightarrow> (xs @ [x]) ! k' \<noteq> x)) \<longleftrightarrow> k = length xs"
    proof
      assume a: "k < Suc (length xs) \<and> (xs @ [x]) ! k = x \<and>
            (\<forall>k'. k < k' \<and> k' < Suc (length xs) \<longrightarrow> (xs @ [x]) ! k' \<noteq> x)"
      show "k = length xs"
      proof (rule ccontr)
        assume "k \<noteq> length xs"
        with a have "k < length xs" by simp
        with a have "(xs @ [x]) ! length xs \<noteq> x" by blast
        then show False by simp
      qed
    next
      assume "k = length xs"
      then show "k < Suc (length xs) \<and> (xs @ [x]) ! k = x \<and>
            (\<forall>k'. k < k' \<and> k' < Suc (length xs) \<longrightarrow> (xs @ [x]) ! k' \<noteq> x)"
        by auto
    qed
    with True show ?thesis unfolding upd by auto
  next
    case False
    have "(k < Suc (length xs) \<and> (xs @ [x]) ! k = nm \<and>
            (\<forall>k'. k < k' \<and> k' < Suc (length xs) \<longrightarrow> (xs @ [x]) ! k' \<noteq> nm)) \<longleftrightarrow>
          (k < length xs \<and> xs ! k = nm \<and> (\<forall>k'. k < k' \<and> k' < length xs \<longrightarrow> xs ! k' \<noteq> nm))"
      (is "?L \<longleftrightarrow> ?R")
    proof
      assume l: ?L
      with False have k: "k < length xs" by (cases "k = length xs") auto
      with l have "xs ! k = nm" by (simp add: nth_append)
      moreover have "\<forall>k'. k < k' \<and> k' < length xs \<longrightarrow> xs ! k' \<noteq> nm"
      proof (intro allI impI)
        fix k' assume k': "k < k' \<and> k' < length xs"
        with l have "(xs @ [x]) ! k' \<noteq> nm" by simp
        with k' show "xs ! k' \<noteq> nm" by (simp add: nth_append)
      qed
      ultimately show ?R using k by blast
    next
      assume r: ?R
      then have "(xs @ [x]) ! k = nm" by (simp add: nth_append)
      moreover have "\<forall>k'. k < k' \<and> k' < Suc (length xs) \<longrightarrow> (xs @ [x]) ! k' \<noteq> nm"
      proof (intro allI impI)
        fix k' assume k': "k < k' \<and> k' < Suc (length xs)"
        show "(xs @ [x]) ! k' \<noteq> nm"
        proof (cases "k' = length xs")
          case True
          with False show ?thesis by simp
        next
          case False
          with k' have "k' < length xs" by simp
          with r k' show ?thesis by (simp add: nth_append)
        qed
      qed
      ultimately show ?L using r by simp
    qed
    with False snoc.IH [of k] show ?thesis unfolding upd by simp
  qed
qed

lemma index_map_defined:
  "(Map.empty(xs [\<mapsto>] [0..<length xs])) nm \<noteq> None \<longleftrightarrow> nm \<in> set xs"
proof -
  have "dom (Map.empty(xs [\<mapsto>] [0..<length xs])) = set xs" by simp
  then show ?thesis by (metis domIff)
qed

lemma list_all2_Bex:
  assumes "list_all2 R xs ys" and "\<And>x y y'. R x y \<Longrightarrow> R x y' \<Longrightarrow> y = y'"
  shows "(\<exists>y\<in>set ys. Q y) \<longleftrightarrow> (\<exists>x\<in>set xs. \<exists>y. R x y \<and> Q y)"
proof
  assume "\<exists>y\<in>set ys. Q y"
  then obtain k where "k < length ys" "Q (ys ! k)" by (auto simp: in_set_conv_nth)
  with assms(1) have "xs ! k \<in> set xs" "R (xs ! k) (ys ! k)"
    by (auto simp: list_all2_conv_all_nth)
  with \<open>Q (ys ! k)\<close> show "\<exists>x\<in>set xs. \<exists>y. R x y \<and> Q y" by blast
next
  assume "\<exists>x\<in>set xs. \<exists>y. R x y \<and> Q y"
  then obtain k y where k: "k < length xs" "R (xs ! k) y" "Q y" by (auto simp: in_set_conv_nth)
  with assms(1) have "ys ! k \<in> set ys" "R (xs ! k) (ys ! k)"
    by (auto simp: list_all2_conv_all_nth)
  with k assms(2) have "Q (ys ! k)" by blast
  with \<open>ys ! k \<in> set ys\<close> show "\<exists>y\<in>set ys. Q y" by blast
qed

text \<open>
  C3. In a constructed \<open>RobotState\<close> both wiring tables have one row for each transmission
  of the model; row \<open>i\<close> of \<open>transmissions_in\<close> has as many entries as transmission \<open>i\<close>
  declares actuator names, and row \<open>i\<close> of \<open>transmissions_out\<close> as many as it declares
  joint names.
\<close>

theorem wiring_table_sizes:
  assumes "RobotState_ctor js0 (Some m) = Inr (rs, lg)"
  shows "length (transmissions_in rs) = length (transmissions m) \<and>
         length (transmissions_out rs) = length (transmissions m) \<and>
         (\<forall>i<length (transmissions m).
            length (transmissions_in rs ! i) = length (actuator_names (transmissions m ! i)) \<and>
            length (transmissions_out rs ! i) = length (joint_names (transmissions m ! i)))"
proof -
  note r = RobotState_ctor_Inr [OF assms]
  from r(2) have len_in: "length (transmissions_in rs) = length (transmissions m)"
    by (simp add: list_all2_lengthD)
  have len_out: "length (transmissions_out rs) = length (transmissions m)"
    by (simp add: r(5) length_out_rows)
  have rows: "length (transmissions_in rs ! i) = length (actuator_names (transmissions m ! i)) \<and>
              length (transmissions_out rs ! i) = length (joint_names (transmissions m ! i))"
    if i: "i < length (transmissions m)" for i
  proof -
    from r(2) i have "list_all2 (resolves m) (actuator_names (transmissions m ! i)) (transmissions_in rs ! i)"
      by (rule list_all2_nthD)
    then have "length (transmissions_in rs ! i) = length (actuator_names (transmissions m ! i))"
      by (simp add: list_all2_lengthD)
    moreover from i have "length (transmissions_out rs ! i) = length (joint_names (transmissions m ! i))"
      by (simp add: r(5) out_rows_nth)
    ultimately show ?thesis by simp
  qed
  from len_in len_out rows show ?thesis by blast
qed

theorem wiring_table_sizes_witness:
  "RobotState_ctor example_js0 (Some example_robot) = Inr (example_state, []) \<and>
   length (transmissions example_robot) = 3 \<and>
   length (transmissions_in example_state) = 3 \<and>
   length (transmissions_out example_state) = 3 \<and>
   length (transmissions_in example_state ! 0) = length (actuator_names (transmissions example_robot ! 0)) \<and>
   length (transmissions_out example_state ! 0) = length (joint_names (transmissions example_robot ! 0)) \<and>
   length (transmissions_in example_state ! 2) = length (actuator_names (transmissions example_robot ! 2)) \<and>
   length (transmissions_out example_state ! 2) = length (joint_names (transmissions example_robot ! 2))"
proof -
  note w = wiring_table_sizes [OF example_ctor]
  have n: "length (transmissions example_robot) = 3" by (simp add: example_robot_def)
  from w have rows: "\<forall>i<length (transmissions example_robot).
            length (transmissions_in example_state ! i) =
              length (actuator_names (transmissions example_robot ! i)) \<and>
            length (transmissions_out example_state ! i) =
              length (joint_names (transmissions example_robot ! i))"
    by blast
  from rows [rule_format, of 0] rows [rule_format, of 2] w n example_ctor
  show ?thesis by simp
qed

text \<open>
  C4. In a constructed \<open>RobotState\<close> the joint-state list is as long as the sum of the
  declared joint counts, and the rows of \<open>transmissions_out\<close>, one after the other, are
  the slots of that list in order, each once. The \<open>j\<close>-th joint name of transmission \<open>i\<close>
  has the slot \<open>slot_of m i j\<close> of its own: the joints counted in transmission-then-joint
  order, nothing merged. That slot is what \<open>transmissions_out\<close> holds at \<open>i\<close>, \<open>j\<close>, and it is bound
  to the joint of that name. The name map sends a name to the last slot that was declared
  with it.
\<close>

theorem joint_state_slots:
  assumes "RobotState_ctor js0 (Some m) = Inr (rs, lg)"
  shows "length (joint_states rs) =
           sum_list (map (\<lambda>t. length (joint_names t)) (transmissions m)) \<and>
         concat (transmissions_out rs) = [0..<length (joint_states rs)] \<and>
         (\<forall>i<length (transmissions m). \<forall>j<length (joint_names (transmissions m ! i)).
            transmissions_out rs ! i ! j = slot_of m i j \<and>
            slot_of m i j < length (joint_states rs) \<and>
            declared_joint_names m ! slot_of m i j = joint_names (transmissions m ! i) ! j \<and>
            joint (joint_states rs ! slot_of m i j) =
              getJoint (robot_model m) (joint_names (transmissions m ! i) ! j)) \<and>
         (\<forall>nm k. joint_states_map rs nm = Some k \<longleftrightarrow>
            k < length (declared_joint_names m) \<and> declared_joint_names m ! k = nm \<and>
            (\<forall>k'. k < k' \<and> k' < length (declared_joint_names m) \<longrightarrow>
                  declared_joint_names m ! k' \<noteq> nm))"
proof -
  note r = RobotState_ctor_Inr [OF assms]
  let ?nss = "map joint_names (transmissions m)"
  have len: "length (joint_states rs) = length (declared_joint_names m)"
    by (simp add: r(3))
  have total: "length (joint_states rs) =
                 sum_list (map (\<lambda>t. length (joint_names t)) (transmissions m))"
    by (simp add: r(3) declared_joint_names_def length_concat comp_def)
  have slots: "transmissions_out rs ! i ! j = slot_of m i j \<and>
            slot_of m i j < length (joint_states rs) \<and>
            declared_joint_names m ! slot_of m i j = joint_names (transmissions m ! i) ! j \<and>
            joint (joint_states rs ! slot_of m i j) =
              getJoint (robot_model m) (joint_names (transmissions m ! i) ! j)"
    if i: "i < length (transmissions m)" and j: "j < length (joint_names (transmissions m ! i))"
    for i j
  proof -
    from i j have i': "i < length ?nss" and j': "j < length (?nss ! i)" by simp_all
    from i j have out: "transmissions_out rs ! i ! j = slot_of m i j"
      by (simp add: r(5) out_rows_nth slot_of_concat)
    from concat_take_less [OF i' j'] have lt: "slot_of m i j < length (declared_joint_names m)"
      by (simp add: slot_of_concat declared_joint_names_def)
    from concat_nth_slot [OF i' j'] i
    have nm: "declared_joint_names m ! slot_of m i j = joint_names (transmissions m ! i) ! j"
      by (simp add: slot_of_concat declared_joint_names_def)
    from lt nm have "joint (joint_states rs ! slot_of m i j) =
              getJoint (robot_model m) (joint_names (transmissions m ! i) ! j)"
      by (simp add: r(3) wired_def)
    with out lt nm len show ?thesis by simp
  qed
  have names: "joint_states_map rs nm = Some k \<longleftrightarrow>
            k < length (declared_joint_names m) \<and> declared_joint_names m ! k = nm \<and>
            (\<forall>k'. k < k' \<and> k' < length (declared_joint_names m) \<longrightarrow>
                  declared_joint_names m ! k' \<noteq> nm)" for nm k
    unfolding r(4) by (rule index_map_Some)
  have order: "concat (transmissions_out rs) = [0..<length (joint_states rs)]"
    by (simp add: r(5) concat_out_rows len declared_joint_names_def)
  from total order slots names show ?thesis by blast
qed

theorem joint_state_slots_witness:
  "RobotState_ctor example_js0 (Some example_robot) = Inr (example_state, []) \<and>
   declared_joint_names example_robot = [''j1'', ''j2'', ''j1''] \<and>
   length (joint_states example_state) = 3 \<and>
   concat (transmissions_out example_state) = [0..<length (joint_states example_state)] \<and>
   slot_of example_robot 1 0 = 2 \<and>
   transmissions_out example_state ! 1 ! 0 = 2 \<and>
   joint (joint_states example_state ! 2) = getJoint (robot_model example_robot) ''j1'' \<and>
   joint_states_map example_state ''j1'' = Some 2"
proof -
  note w = joint_state_slots [OF example_ctor]
  have names: "declared_joint_names example_robot = [''j1'', ''j2'', ''j1'']"
    by (simp add: declared_joint_names_def example_robot_def)
  have slot: "slot_of example_robot 1 0 = 2"
    by (simp add: slot_of_def example_robot_def)
  from w have "length (joint_states example_state) =
      sum_list (map (\<lambda>t. length (joint_names t)) (transmissions example_robot))"
    by blast
  then have len: "length (joint_states example_state) = 3"
    by (simp add: example_robot_def)
  from w have "\<forall>i<length (transmissions example_robot).
      \<forall>j<length (joint_names (transmissions example_robot ! i)).
        transmissions_out example_state ! i ! j = slot_of example_robot i j \<and>
        slot_of example_robot i j < length (joint_states example_state) \<and>
        declared_joint_names example_robot ! slot_of example_robot i j =
          joint_names (transmissions example_robot ! i) ! j \<and>
        joint (joint_states example_state ! slot_of example_robot i j) =
          getJoint (robot_model example_robot) (joint_names (transmissions example_robot ! i) ! j)"
    by blast
  from this [rule_format, of 1 0]
  have out: "transmissions_out example_state ! 1 ! 0 = 2"
    and bound: "joint (joint_states example_state ! 2) = getJoint (robot_model example_robot) ''j1''"
    unfolding slot by (simp_all add: example_robot_def)
  from w have "\<forall>nm k. joint_states_map example_state nm = Some k \<longleftrightarrow>
      k < length (declared_joint_names example_robot) \<and>
      declared_joint_names example_robot ! k = nm \<and>
      (\<forall>k'. k < k' \<and> k' < length (declared_joint_names example_robot) \<longrightarrow>
            declared_joint_names example_robot ! k' \<noteq> nm)"
    by blast
  from this [rule_format, of "''j1''" 2]
  have last: "joint_states_map example_state ''j1'' = Some 2"
    unfolding names by auto
  from w have order: "concat (transmissions_out example_state) =
      [0..<length (joint_states example_state)]"
    by blast
  from example_ctor names len order slot out bound last show ?thesis by simp
qed

text \<open>
  C5. On a constructed \<open>RobotState\<close>, \<open>getJointState\<close> returns a slot exactly for the
  names that some transmission declares as a joint name and null for every other name; a
  slot it returns is a slot of the joint-state list that was declared with that name.
\<close>

theorem getJointState_iff_declared:
  assumes "RobotState_ctor js0 (Some m) = Inr (rs, lg)"
  shows "(getJointState rs nm \<noteq> None \<longleftrightarrow> (\<exists>t\<in>set (transmissions m). nm \<in> set (joint_names t))) \<and>
         ((\<forall>t\<in>set (transmissions m). nm \<notin> set (joint_names t)) \<longrightarrow> getJointState rs nm = None) \<and>
         (\<forall>p. getJointState rs nm = Some p \<longrightarrow>
            p < length (joint_states rs) \<and> declared_joint_names m ! p = nm)"
proof -
  note r = RobotState_ctor_Inr [OF assms]
  have get: "getJointState rs nm = joint_states_map rs nm"
    by (simp add: getJointState_def split: option.split)
  have "getJointState rs nm \<noteq> None \<longleftrightarrow> nm \<in> set (declared_joint_names m)"
    unfolding get r(4) by (rule index_map_defined)
  then have iff: "getJointState rs nm \<noteq> None \<longleftrightarrow> (\<exists>t\<in>set (transmissions m). nm \<in> set (joint_names t))"
    by (auto simp: declared_joint_names_def)
  have slot: "p < length (joint_states rs) \<and> declared_joint_names m ! p = nm"
    if "getJointState rs nm = Some p" for p
    using that unfolding get r(4) by (simp add: index_map_Some r(3))
  from iff slot show ?thesis by blast
qed

theorem getJointState_iff_declared_witness:
  "RobotState_ctor example_js0 (Some example_robot) = Inr (example_state, []) \<and>
   getJointState example_state ''j2'' \<noteq> None \<and>
   getJointState example_state ''elbow'' = None"
proof -
  note w = getJointState_iff_declared [OF example_ctor]
  from w [of "''j2''"] have a: "getJointState example_state ''j2'' \<noteq> None"
    by (simp add: example_robot_def)
  from w [of "''elbow''"] have b: "getJointState example_state ''elbow'' = None"
    by (simp add: example_robot_def)
  from example_ctor a b show ?thesis by simp
qed

section \<open>First match against last match\<close>

text \<open>
  C10. When two transmissions of the list have the name and the first of them is the
  earliest transmission of that name, \<open>getTransmissionIndex\<close> returns the index of the
  first and \<open>getTransmission\<close> returns that transmission. The name map of a \<open>RobotState\<close>
  built from the same robot does the opposite: of two slots declared with one joint name,
  \<open>getJointState\<close> returns the later one when no slot after it has the name.
\<close>

theorem getTransmissionIndex_first_match:
  assumes "i < k" and "k < length (transmissions r)"
    and "name (transmissions r ! i) = nm" and "name (transmissions r ! k) = nm"
    and "\<forall>j<i. name (transmissions r ! j) \<noteq> nm"
  shows "getTransmissionIndex r nm = int i \<and>
         getTransmission r nm = Some (transmissions r ! i) \<and>
         (\<forall>js0 rs lg jn p q.
            RobotState_ctor js0 (Some r) = Inr (rs, lg) \<and>
            p < q \<and> q < length (declared_joint_names r) \<and>
            declared_joint_names r ! p = jn \<and> declared_joint_names r ! q = jn \<and>
            (\<forall>q'. q < q' \<and> q' < length (declared_joint_names r) \<longrightarrow>
                  declared_joint_names r ! q' \<noteq> jn) \<longrightarrow>
            getJointState rs jn = Some q)"
proof -
  have "findIndexByName_loop (transmissions r) nm 0 = int i"
    using assms by (intro findIndexByName_loop_first) auto
  then have idx: "getTransmissionIndex r nm = int i"
    by (simp add: getTransmissionIndex_def findIndexByName_def)
  then have get: "getTransmission r nm = Some (transmissions r ! i)"
    by (simp add: getTransmission_def)
  have last: "getJointState rs jn = Some q"
    if ctor: "RobotState_ctor js0 (Some r) = Inr (rs, lg)"
      and q: "q < length (declared_joint_names r)" "declared_joint_names r ! q = jn"
        "\<forall>q'. q < q' \<and> q' < length (declared_joint_names r) \<longrightarrow> declared_joint_names r ! q' \<noteq> jn"
    for js0 rs lg jn q
  proof -
    have "getJointState rs jn = joint_states_map rs jn"
      by (simp add: getJointState_def split: option.split)
    also have "\<dots> = Some q"
      unfolding RobotState_ctor_Inr(4) [OF ctor] index_map_Some using q by simp
    finally show ?thesis .
  qed
  from idx get last show ?thesis by blast
qed

theorem getTransmissionIndex_first_match_witness:
  "name (transmissions example_robot ! 0) = ''a'' \<and>
   name (transmissions example_robot ! 2) = ''a'' \<and>
   getTransmissionIndex example_robot ''a'' = 0 \<and>
   getTransmission example_robot ''a'' =
     Some \<lparr>name = ''a'', actuator_names = [''act1'', ''act2''], joint_names = [''j1'', ''j2'']\<rparr> \<and>
   RobotState_ctor example_js0 (Some example_robot) = Inr (example_state, []) \<and>
   declared_joint_names example_robot ! 0 = ''j1'' \<and>
   declared_joint_names example_robot ! 2 = ''j1'' \<and>
   getJointState example_state ''j1'' = Some 2"
proof -
  have a0: "name (transmissions example_robot ! 0) = ''a''"
    and a2: "name (transmissions example_robot ! 2) = ''a''"
    and len: "2 < length (transmissions example_robot)"
    and t0: "transmissions example_robot ! 0 =
      \<lparr>name = ''a'', actuator_names = [''act1'', ''act2''], joint_names = [''j1'', ''j2'']\<rparr>"
    by (simp_all add: example_robot_def)
  have first: "\<forall>j<0. name (transmissions example_robot ! j) \<noteq> ''a''" by simp
  have names: "declared_joint_names example_robot = [''j1'', ''j2'', ''j1'']"
    by (simp add: declared_joint_names_def example_robot_def)
  have "(0::nat) < 2" by simp
  note w = getTransmissionIndex_first_match [OF this len a0 a2 first]
  from w have idx: "getTransmissionIndex example_robot ''a'' = 0"
    and get: "getTransmission example_robot ''a'' = Some (transmissions example_robot ! 0)"
    by simp_all
  from w have "\<forall>js0 rs lg jn p q.
            RobotState_ctor js0 (Some example_robot) = Inr (rs, lg) \<and>
            p < q \<and> q < length (declared_joint_names example_robot) \<and>
            declared_joint_names example_robot ! p = jn \<and>
            declared_joint_names example_robot ! q = jn \<and>
            (\<forall>q'. q < q' \<and> q' < length (declared_joint_names example_robot) \<longrightarrow>
                  declared_joint_names example_robot ! q' \<noteq> jn) \<longrightarrow>
            getJointState rs jn = Some q"
    by blast
  from this [rule_format, of example_js0 example_state "[]" 0 2 "''j1''"] example_ctor
  have last: "getJointState example_state ''j1'' = Some 2"
    unfolding names by auto
  from a0 a2 idx get t0 example_ctor names last show ?thesis by simp
qed

section \<open>Properties of isHalted and zeroCommands\<close>

lemma isHalted_actuators_iff:
  "isHalted_actuators mem row a \<longleftrightarrow> (\<exists>k. a \<le> k \<and> k < length row \<and> halted (state (mem (row ! k))))"
proof (induction mem row a rule: isHalted_actuators.induct)
  case (1 mem row a)
  show ?case
  proof (cases "a < length row")
    case False
    then have "\<not> isHalted_actuators mem row a"
      by (subst isHalted_actuators.simps) simp
    with False show ?thesis by auto
  next
    case True
    show ?thesis
    proof (cases "halted (state (mem (row ! a)))")
      case h: True
      with True have "isHalted_actuators mem row a"
        by (subst isHalted_actuators.simps) simp
      with True h show ?thesis by auto
    next
      case h: False
      have "isHalted_actuators mem row a = isHalted_actuators mem row (Suc a)"
        using True h by (subst isHalted_actuators.simps) simp
      also have "\<dots> \<longleftrightarrow> (\<exists>k. Suc a \<le> k \<and> k < length row \<and> halted (state (mem (row ! k))))"
        by (rule "1.IH" [OF True h])
      also have "\<dots> \<longleftrightarrow> (\<exists>k. a \<le> k \<and> k < length row \<and> halted (state (mem (row ! k))))"
        using h by (metis Suc_leD Suc_leI le_neq_implies_less)
      finally show ?thesis .
    qed
  qed
qed

lemma isHalted_loop_iff:
  "isHalted_loop mem tin t \<longleftrightarrow>
     (\<exists>k. t \<le> k \<and> k < length tin \<and> (\<exists>act\<in>set (tin ! k). halted (state (mem act))))"
proof (induction mem tin t rule: isHalted_loop.induct)
  case (1 mem tin t)
  have row: "isHalted_actuators mem row 0 \<longleftrightarrow> (\<exists>act\<in>set row. halted (state (mem act)))" for row
    by (auto simp: isHalted_actuators_iff in_set_conv_nth Bex_def)
  show ?case
  proof (cases "t < length tin")
    case False
    then have "\<not> isHalted_loop mem tin t"
      by (subst isHalted_loop.simps) simp
    with False show ?thesis by auto
  next
    case True
    show ?thesis
    proof (cases "isHalted_actuators mem (tin ! t) 0")
      case h: True
      with True have "isHalted_loop mem tin t"
        by (subst isHalted_loop.simps) simp
      moreover from h True have "\<exists>k. t \<le> k \<and> k < length tin \<and> (\<exists>act\<in>set (tin ! k). halted (state (mem act)))"
        unfolding row by (intro exI [of _ t]) simp
      ultimately show ?thesis by simp
    next
      case h: False
      have "isHalted_loop mem tin t = isHalted_loop mem tin (Suc t)"
        using True h by (subst isHalted_loop.simps) simp
      also have "\<dots> \<longleftrightarrow> (\<exists>k. Suc t \<le> k \<and> k < length tin \<and> (\<exists>act\<in>set (tin ! k). halted (state (mem act))))"
        by (rule "1.IH" [OF True h])
      also have "\<dots> \<longleftrightarrow> (\<exists>k. t \<le> k \<and> k < length tin \<and> (\<exists>act\<in>set (tin ! k). halted (state (mem act))))"
        using h unfolding row by (metis Suc_leD Suc_leI le_neq_implies_less)
      finally show ?thesis .
    qed
  qed
qed

lemma isHalted_iff:
  "isHalted (mem, rs) \<longleftrightarrow> (\<exists>row\<in>set (transmissions_in rs). \<exists>act\<in>set row. halted (state (mem act)))"
  by (auto simp: isHalted_def isHalted_loop_iff in_set_conv_nth Bex_def)

lemma zeroCommands_loop_eq:
  "zeroCommands_loop rs i =
     rs\<lparr>joint_states := take i (joint_states rs) @
            map (\<lambda>s. s\<lparr>commanded_effort := 0\<rparr>) (drop i (joint_states rs))\<rparr>"
proof (induction k \<equiv> "length (joint_states rs) - i" arbitrary: i rs)
  case 0
  then have stop: "\<not> i < length (joint_states rs)" by simp
  have "zeroCommands_loop rs i = rs"
    by (subst zeroCommands_loop.simps) (simp only: stop if_False)
  with stop show ?case by simp
next
  case (Suc k)
  then have lt: "i < length (joint_states rs)" by simp
  define rs1 where "rs1 = rs\<lparr>joint_states :=
      (joint_states rs)[i := (joint_states rs ! i)\<lparr>commanded_effort := 0\<rparr>]\<rparr>"
  have step: "zeroCommands_loop rs i = zeroCommands_loop rs1 (Suc i)"
    by (subst zeroCommands_loop.simps) (simp only: lt if_True rs1_def)
  have k: "k = length (joint_states rs1) - Suc i"
    using Suc.hyps(2) by (simp add: rs1_def)
  have tk: "take (Suc i) (joint_states rs1) =
              take i (joint_states rs) @ [(joint_states rs ! i)\<lparr>commanded_effort := 0\<rparr>]"
    using lt by (simp add: rs1_def take_Suc_conv_app_nth)
  have dr: "drop (Suc i) (joint_states rs1) = drop (Suc i) (joint_states rs)"
    by (simp add: rs1_def)
  have d: "drop i (joint_states rs) = joint_states rs ! i # drop (Suc i) (joint_states rs)"
    using lt by (simp add: Cons_nth_drop_Suc)
  show ?case
    unfolding step Suc.hyps(1) [OF k] tk dr d by (simp add: rs1_def)
qed

text \<open>
  C6. On a constructed \<open>RobotState\<close>, \<open>isHalted\<close> is true exactly when some entry of
  \<open>transmissions_in\<close> points to an actuator whose halted flag is set, that is, when some
  actuator name declared by some transmission resolves to a halted actuator. It is false
  when the table holds no actuator, and so in a model without transmissions.
\<close>

theorem isHalted_iff_bound_actuator_halted:
  assumes "RobotState_ctor js0 (Some m) = Inr (rs, lg)"
  shows "(isHalted (mem, rs) \<longleftrightarrow>
            (\<exists>row\<in>set (transmissions_in rs). \<exists>act\<in>set row. halted (state (mem act)))) \<and>
         (isHalted (mem, rs) \<longleftrightarrow>
            (\<exists>t\<in>set (transmissions m). \<exists>nm\<in>set (actuator_names t).
               \<exists>act. resolves m nm act \<and> halted (state (mem act)))) \<and>
         (concat (transmissions_in rs) = [] \<longrightarrow> \<not> isHalted (mem, rs)) \<and>
         (transmissions m = [] \<longrightarrow> \<not> isHalted (mem, rs))"
proof -
  note r = RobotState_ctor_Inr [OF assms]
  let ?H = "\<lambda>act. halted (state (mem act))"
  have fun1: "resolves m nm act \<Longrightarrow> resolves m nm act' \<Longrightarrow> act = act'" for nm act act'
    by (simp add: resolves_def)
  have fun2: "list_all2 (resolves m) ns row \<Longrightarrow> list_all2 (resolves m) ns row' \<Longrightarrow> row = row'"
    for ns row row'
    by (auto simp: list_all2_conv_all_nth intro!: nth_equalityI fun1)
  have table: "isHalted (mem, rs) \<longleftrightarrow> (\<exists>row\<in>set (transmissions_in rs). \<exists>act\<in>set row. ?H act)"
    by (rule isHalted_iff)
  have "(\<exists>row\<in>set (transmissions_in rs). \<exists>act\<in>set row. ?H act) \<longleftrightarrow>
        (\<exists>t\<in>set (transmissions m). \<exists>row. list_all2 (resolves m) (actuator_names t) row \<and>
             (\<exists>act\<in>set row. ?H act))"
    using r(2) fun2 by (rule list_all2_Bex)
  also have "\<dots> \<longleftrightarrow> (\<exists>t\<in>set (transmissions m). \<exists>nm\<in>set (actuator_names t).
               \<exists>act. resolves m nm act \<and> ?H act)"
  proof -
    have "(\<exists>row. list_all2 (resolves m) (actuator_names t) row \<and> (\<exists>act\<in>set row. ?H act)) \<longleftrightarrow>
          (\<exists>nm\<in>set (actuator_names t). \<exists>act. resolves m nm act \<and> ?H act)"
      if t: "t \<in> set (transmissions m)" for t
    proof -
      from r(2) t obtain row0 where row0: "list_all2 (resolves m) (actuator_names t) row0"
        by (auto simp: in_set_conv_nth list_all2_conv_all_nth)
      have "(\<exists>row. list_all2 (resolves m) (actuator_names t) row \<and> (\<exists>act\<in>set row. ?H act)) \<longleftrightarrow>
            (\<exists>act\<in>set row0. ?H act)"
        using row0 fun2 by blast
      also have "\<dots> \<longleftrightarrow> (\<exists>nm\<in>set (actuator_names t). \<exists>act. resolves m nm act \<and> ?H act)"
        using row0 fun1 by (rule list_all2_Bex)
      finally show ?thesis .
    qed
    then show ?thesis by blast
  qed
  finally have names: "(\<exists>row\<in>set (transmissions_in rs). \<exists>act\<in>set row. ?H act) \<longleftrightarrow>
     (\<exists>t\<in>set (transmissions m). \<exists>nm\<in>set (actuator_names t). \<exists>act. resolves m nm act \<and> ?H act)" .
  have none: "\<not> isHalted (mem, rs)" if "concat (transmissions_in rs) = []"
    using that unfolding table by auto
  have empty: "\<not> isHalted (mem, rs)" if "transmissions m = []"
    using that r(2) unfolding table by simp
  from table names none empty show ?thesis by blast
qed

theorem isHalted_iff_bound_actuator_halted_witness:
  "RobotState_ctor example_js0 (Some example_robot) = Inr (example_state, []) \<and>
   resolves example_robot ''act2'' 1 \<and>
   halted (state (example_memory 1)) \<and>
   isHalted (example_memory, example_state) \<and>
   \<not> isHalted (\<lambda>p. \<lparr>state = \<lparr>halted = False\<rparr>\<rparr>, example_state)"
proof -
  have r: "resolves example_robot ''act2'' 1"
    by (simp add: resolves_def getActuator_def HardwareInterface_getActuator_def
        example_robot_def example_hw_def)
  have h: "halted (state (example_memory 1))" by (simp add: example_memory_def)
  from isHalted_iff_bound_actuator_halted [OF example_ctor, of example_memory] r h
  have a: "isHalted (example_memory, example_state)"
    by (auto simp: example_robot_def)
  from isHalted_iff_bound_actuator_halted [OF example_ctor, of "\<lambda>p. \<lparr>state = \<lparr>halted = False\<rparr>\<rparr>"]
  have b: "\<not> isHalted (\<lambda>p. \<lparr>state = \<lparr>halted = False\<rparr>\<rparr>, example_state)"
    by simp
  from example_ctor r h a b show ?thesis by simp
qed

text \<open>
  C7. \<open>zeroCommands\<close> leaves the actuators in the memory of the hardware interface as they
  are, and of the object it changes the joint states only: the list keeps its length and
  its order, and every joint state in it has its commanded effort set to zero and every
  other member as before. The wiring tables, the name map and the model are unchanged.
\<close>

theorem zeroCommands_effect:
  "zeroCommands (mem, rs) =
     (mem, rs\<lparr>joint_states := map (\<lambda>s. s\<lparr>commanded_effort := 0\<rparr>) (joint_states rs)\<rparr>)"
  by (simp add: zeroCommands_def zeroCommands_loop_eq)

end
